theory Spec2Isabelle
  imports Complex_Main "HOL-Library.AList"
begin

section \<open>Values of the task document\<close>

text \<open>
  The application keeps its tasks as the Python values that \<^verbatim>\<open>json.load\<close> returns:
  \<^verbatim>\<open>None\<close>, \<^verbatim>\<open>bool\<close>, numbers, \<^verbatim>\<open>str\<close>, \<^verbatim>\<open>list\<close> and \<^verbatim>\<open>dict\<close> with string keys.
  A dict is an association list in insertion order with pairwise distinct keys; lookups
  read the first binding of a key. An \<^verbatim>\<open>int\<close> is an unbounded integer; a \<^verbatim>\<open>float\<close> is
  the real number that the double denotes. The floats \<^verbatim>\<open>NaN\<close>, \<^verbatim>\<open>Infinity\<close> and
  \<^verbatim>\<open>-Infinity\<close> are outside this model. A string is a list of characters with code
  points below 256.
\<close>

datatype json =
    JNull
  | JBool bool
  | JInt int
  | JFloat real
  | JStr string
  | JList "json list"
  | JObj "(string \<times> json) list"

type_synonym dict = "(string \<times> json) list"

text \<open>\<^verbatim>\<open>bool(v)\<close>: Python's truth value.\<close>

fun truthy :: "json \<Rightarrow> bool" where
  "truthy JNull = False"
| "truthy (JBool b) = b"
| "truthy (JInt n) = (n \<noteq> 0)"
| "truthy (JFloat x) = (x \<noteq> 0)"
| "truthy (JStr s) = (s \<noteq> [])"
| "truthy (JList xs) = (xs \<noteq> [])"
| "truthy (JObj kv) = (kv \<noteq> [])"

text \<open>\<^verbatim>\<open>isinstance(v, (int, float))\<close>: \<^verbatim>\<open>bool\<close> is a subclass of \<^verbatim>\<open>int\<close>.\<close>

fun is_number :: "json \<Rightarrow> bool" where
  "is_number (JInt n) = True"
| "is_number (JFloat x) = True"
| "is_number (JBool b) = True"
| "is_number v = False"

text \<open>The numeric value of a number (\<^verbatim>\<open>True\<close> is 1, \<^verbatim>\<open>False\<close> is 0).\<close>

fun num_val :: "json \<Rightarrow> real" where
  "num_val (JInt n) = real_of_int n"
| "num_val (JFloat x) = x"
| "num_val (JBool b) = (if b then 1 else 0)"
| "num_val v = 0"

fun is_list :: "json \<Rightarrow> bool" where
  "is_list (JList xs) = True"
| "is_list v = False"

fun is_bool :: "json \<Rightarrow> bool" where
  "is_bool (JBool b) = True"
| "is_bool v = False"

fun is_dict :: "json \<Rightarrow> bool" where
  "is_dict (JObj kv) = True"
| "is_dict v = False"

text \<open>\<^verbatim>\<open>d.get(k)\<close>, \<^verbatim>\<open>d.get(k, dflt)\<close>, \<^verbatim>\<open>k in d\<close>, \<^verbatim>\<open>d.setdefault(k, v)\<close>,
  \<^verbatim>\<open>d[k] = v\<close> (\<^const>\<open>AList.update\<close>: an existing key keeps its place, a new one goes last).\<close>

definition get_or :: "dict \<Rightarrow> string \<Rightarrow> json \<Rightarrow> json" where
  "get_or d k dflt = (case map_of d k of Some v \<Rightarrow> v | None \<Rightarrow> dflt)"

definition get :: "dict \<Rightarrow> string \<Rightarrow> json" where
  "get d k = get_or d k JNull"

definition has_key :: "dict \<Rightarrow> string \<Rightarrow> bool" where
  "has_key d k = (map_of d k \<noteq> None)"

definition setdefault :: "string \<Rightarrow> json \<Rightarrow> dict \<Rightarrow> dict" where
  "setdefault k v d = (if has_key d k then d else d @ [(k, v)])"

definition setitem :: "string \<Rightarrow> json \<Rightarrow> dict \<Rightarrow> dict" where
  "setitem k v d = AList.update k v d"

definition delitem :: "string \<Rightarrow> dict \<Rightarrow> dict" where
  "delitem k d = AList.delete k d"

text \<open>\<^verbatim>\<open>d.setdefault(k1, v1); d.setdefault(k2, v2); ...\<close> in this order.\<close>

definition setdefaults :: "(string \<times> json) list \<Rightarrow> dict \<Rightarrow> dict" where
  "setdefaults kvs d = fold (\<lambda>(k, v). setdefault k v) kvs d"

text \<open>
  \<^verbatim>\<open>a == b\<close> on these values: numbers and booleans compare by value, strings and lists
  by content, dicts by their bindings whatever the order, and values of different kinds
  are unequal.
\<close>

fun py_eq :: "json \<Rightarrow> json \<Rightarrow> bool"
  and py_eq_list :: "json list \<Rightarrow> json list \<Rightarrow> bool" where
  "py_eq JNull JNull = True"
| "py_eq (JStr a) (JStr b) = (a = b)"
| "py_eq (JList xs) (JList ys) = py_eq_list xs ys"
| "py_eq (JObj a) (JObj b) =
     ((\<forall>(k, v) \<in> set a. map_of a k = Some v \<longrightarrow>
          (case map_of b k of None \<Rightarrow> False | Some w \<Rightarrow> py_eq v w)) \<and>
      (\<forall>(k, w) \<in> set b. map_of a k \<noteq> None))"
| "py_eq x y = (is_number x \<and> is_number y \<and> num_val x = num_val y)"
| "py_eq_list [] [] = True"
| "py_eq_list (x # xs) (y # ys) = (py_eq x y \<and> py_eq_list xs ys)"
| "py_eq_list xs ys = False"

text \<open>\<^verbatim>\<open>for x in v\<close>: the elements of a list, the keys of a dict, the characters of a
  string; \<open>None\<close> where Python raises \<^verbatim>\<open>TypeError\<close> (the value is not iterable).\<close>

fun py_iter :: "json \<Rightarrow> json list option" where
  "py_iter (JList xs) = Some xs"
| "py_iter (JObj kv) = Some (map (\<lambda>(k, v). JStr k) kv)"
| "py_iter (JStr s) = Some (map (\<lambda>c. JStr [c]) s)"
| "py_iter v = None"

text \<open>\<^verbatim>\<open>c.isspace()\<close> for the code points below 256 (the ASCII whitespace, U+0085 and
  U+00A0), and \<^verbatim>\<open>s.strip()\<close>.\<close>

definition py_isspace :: "char \<Rightarrow> bool" where
  "py_isspace c = (c \<in> set [CHR 0x09, CHR 0x0A, CHR 0x0B, CHR 0x0C, CHR 0x0D,
                             CHR 0x1C, CHR 0x1D, CHR 0x1E, CHR 0x1F, CHR 0x20,
                             CHR 0x85, CHR 0xA0])"

definition py_strip :: "string \<Rightarrow> string" where
  "py_strip s = rev (dropWhile py_isspace (rev (dropWhile py_isspace s)))"

text \<open>\<^verbatim>\<open>not str(v).strip()\<close>: only a string of whitespace prints as blank text
  (\<^verbatim>\<open>str(None)\<close> is \<^verbatim>\<open>'None'\<close>, \<^verbatim>\<open>str([])\<close> is \<^verbatim>\<open>'[]'\<close>).\<close>

fun blank :: "json \<Rightarrow> bool" where
  "blank (JStr s) = (py_strip s = [])"
| "blank v = False"

text \<open>The decimal text of a natural number, for \<^verbatim>\<open>f'{i+1}'\<close>.\<close>

definition digit_char :: "nat \<Rightarrow> char" where
  "digit_char n = ''0123456789'' ! n"

fun str_nat :: "nat \<Rightarrow> string" where
  "str_nat n = (if n < 10 then [digit_char n] else str_nat (n div 10) @ [digit_char (n mod 10)])"

declare str_nat.simps [simp del]

text \<open>
  The exceptions that the modelled code can raise. \<open>NotFinite\<close> is not an exception: it
  marks a float operation whose result is beyond the range of doubles, where Python goes
  on with \<^verbatim>\<open>inf\<close>, a value that this model does not have.
\<close>

datatype error =
  TypeError | AttributeError | KeyError | UnboundLocalError | OverflowError | NotFinite

subsection \<open>Float arithmetic\<close>

text \<open>
  The result of a float operation is the double nearest to the exact result. The rounding
  \<open>fl\<close> is an argument of the functions that compute with floats. A real number whose
  magnitude reaches \<open>2^1024 - 2^970\<close>, half a step beyond the largest double, rounds to no
  double.
\<close>

type_synonym rounding = "real \<Rightarrow> real"

definition float_overflow :: "real \<Rightarrow> bool" where
  "float_overflow x = (2 ^ 1024 - 2 ^ 970 \<le> \<bar>x\<bar>)"

text \<open>The conversion of the operand of a float operation: an \<^verbatim>\<open>int\<close> is rounded to a
  double, or raises \<^verbatim>\<open>OverflowError\<close> when it is too large; a value that is not a number
  raises \<^verbatim>\<open>TypeError\<close>.\<close>

fun to_float :: "rounding \<Rightarrow> json \<Rightarrow> error + real" where
  "to_float fl (JFloat x) = Inr x"
| "to_float fl (JBool b) = Inr (if b then 1 else 0)"
| "to_float fl (JInt n) =
     (if float_overflow (real_of_int n) then Inl OverflowError else Inr (fl (real_of_int n)))"
| "to_float fl v = Inl TypeError"

text \<open>The float for the exact result \<open>x\<close> of an addition or a subtraction of floats.\<close>

definition float_result :: "rounding \<Rightarrow> real \<Rightarrow> error + real" where
  "float_result fl x = (if float_overflow x then Inl NotFinite else Inr (fl x))"

section \<open>Application state\<close>

text \<open>
  The handle that \<^verbatim>\<open>Clock.schedule_once\<close> returns: the callback's arguments
  (\<^verbatim>\<open>task_index\<close>, \<^verbatim>\<open>alarm_id\<close>) and its delay.
\<close>

record clock_event =
  ev_task :: int
  ev_alarm :: json
  ev_delay :: real

text \<open>
  A key of the \<^verbatim>\<open>scheduled_alarms\<close> dict. Python compares and hashes \<^verbatim>\<open>True\<close>, \<^verbatim>\<open>1\<close>
  and \<^verbatim>\<open>1.0\<close> alike; a list or a dict is unhashable.
\<close>

datatype key = KNone | KNum real | KStr string

fun to_key :: "json \<Rightarrow> key option" where
  "to_key JNull = Some KNone"
| "to_key (JBool b) = Some (KNum (if b then 1 else 0))"
| "to_key (JInt n) = Some (KNum (real_of_int n))"
| "to_key (JFloat x) = Some (KNum x)"
| "to_key (JStr s) = Some (KStr s)"
| "to_key (JList xs) = None"
| "to_key (JObj kv) = None"

text \<open>
  The fields of \<^verbatim>\<open>ProductivityApp\<close> that the task, timer and alarm logic reads and
  writes. Every element of \<^verbatim>\<open>self.tasks\<close> is a dict, as \<^verbatim>\<open>load_tasks\<close> and
  \<^verbatim>\<open>add_task\<close> produce them. \<open>cancelled\<close> logs the events on which \<^verbatim>\<open>cancel()\<close> was called, \<open>tasks_file\<close>
  is the parsed content of \<^verbatim>\<open>TASKS_FILE\<close> (\<open>None\<close> when the file is missing).
\<close>

record app_state =
  tasks :: "dict list"
  selected_index :: "int option"
  tasks_changed :: bool
  scheduled_alarms :: "(key \<times> clock_event) list"
  cancelled :: "clock_event list"
  tasks_file :: "json option"

section \<open>Reordering\<close>

text \<open>\<^verbatim>\<open>xs.pop(i)\<close> and \<^verbatim>\<open>xs.insert(i, x)\<close> for \<open>i\<close> within the list.\<close>

definition list_pop :: "nat \<Rightarrow> 'a list \<Rightarrow> 'a list" where
  "list_pop i xs = take i xs @ drop (Suc i) xs"

definition list_insert :: "nat \<Rightarrow> 'a \<Rightarrow> 'a list \<Rightarrow> 'a list" where
  "list_insert i x xs = take i xs @ x # drop i xs"

text \<open>\<^verbatim>\<open>_insert_task_at_position(from_idx, to_position)\<close>.\<close>

definition insert_task_at_position :: "int \<Rightarrow> int \<Rightarrow> app_state \<Rightarrow> app_state" where
  "insert_task_at_position from_idx to_position st =
    (let n = int (length (tasks st)) in
     if \<not> (0 \<le> from_idx \<and> from_idx < n) then st
     else
       let to_position = max 0 (min n to_position) in
       if from_idx = to_position \<or> from_idx + 1 = to_position then st
       else
         let task = tasks st ! nat from_idx;
             rest = list_pop (nat from_idx) (tasks st);
             to_position = (if from_idx < to_position then to_position - 1 else to_position);
             moved = list_insert (nat to_position) task rest;
             sel = (case selected_index st of
                      None \<Rightarrow> None
                    | Some s \<Rightarrow>
                        if s = from_idx then Some to_position
                        else if from_idx < s \<and> s \<le> to_position then Some (s - 1)
                        else if to_position \<le> s \<and> s < from_idx then Some (s + 1)
                        else Some s)
         in st\<lparr>tasks := moved, selected_index := sel, tasks_changed := True\<rparr>)"

section \<open>Loading the task document\<close>

text \<open>
  What \<^verbatim>\<open>load_tasks\<close> reads from its environment: \<^verbatim>\<open>datetime.now().isoformat()\<close>,
  the formatted Manila time, and the text \<^verbatim>\<open>f"{i}_{alarm_index}_{time.time()}_{uuid4().hex[:6]}"\<close>
  for task \<open>i\<close> and alarm \<open>alarm_index\<close>. One reading of the clock serves the whole load.
\<close>

record load_env =
  le_now_iso :: string
  le_local_time :: string
  le_alarm_id :: "nat \<Rightarrow> nat \<Rightarrow> string"

text \<open>The \<^verbatim>\<open>setdefault\<close> calls of \<^verbatim>\<open>_initialize_subtasks\<close> on one subtask.\<close>

definition subtask_defaults :: "load_env \<Rightarrow> dict \<Rightarrow> dict" where
  "subtask_defaults env =
     setdefaults
       [(''timer_running'', JBool False), (''completed'', JBool False),
        (''annotations'', JList []), (''alarms'', JList []), (''timer'', JInt 0),
        (''start_time_unix'', JNull), (''due_date'', JNull), (''icon'', JNull),
        (''localTime'', JStr (le_local_time env)), (''createdAt'', JStr (le_now_iso env)),
        (''titleHistory'', JList []), (''subtasks'', JList [])]"

text \<open>
  \<^verbatim>\<open>_initialize_subtasks(task)\<close>. \<open>None\<close>: the call raises (a subtask that is not a dict
  has no \<^verbatim>\<open>setdefault\<close>, a \<^verbatim>\<open>subtasks\<close> value that is a number or \<^verbatim>\<open>None\<close> is not
  iterable, the keys of a dict and the characters of a string are strings). Python's
  recursion limit is outside the model.
\<close>

function initialize_subtasks :: "load_env \<Rightarrow> dict \<Rightarrow> dict option" where
  "initialize_subtasks env task =
     (let task = (if \<not> has_key task ''subtasks'' then setitem ''subtasks'' (JList []) task
                  else task)
      in case get task ''subtasks'' of
           JList subs \<Rightarrow>
             map_option (\<lambda>subs'. setitem ''subtasks'' (JList subs') task)
               (those (map (\<lambda>sub. case sub of
                                     JObj s \<Rightarrow> map_option JObj
                                                 (initialize_subtasks env (subtask_defaults env s))
                                   | _ \<Rightarrow> None) subs))
         | JObj kv \<Rightarrow> if kv = [] then Some task else None
         | JStr s \<Rightarrow> if s = [] then Some task else None
         | _ \<Rightarrow> None)"
  by pat_completeness auto

lemma map_of_size: "map_of kv k = Some v \<Longrightarrow> size v < size_list (size_prod (\<lambda>_. 0) size) kv"
  by (induction kv) (auto split: if_splits)

lemma get_size: "has_key d k \<Longrightarrow> size (get d k) < size (JObj d)"
  using map_of_size[of d k] by (auto simp: has_key_def get_def get_or_def less_Suc_eq)

lemma has_key_setdefault: "has_key (setdefault k v d) k' \<longleftrightarrow> has_key d k' \<or> k' = k"
  by (auto simp: setdefault_def has_key_def map_add_def split: if_splits option.splits)

lemma map_of_setdefault:
  "map_of (setdefault k v d) k' =
     (if has_key d k' then map_of d k' else if k' = k then Some v else None)"
  by (auto simp: setdefault_def has_key_def map_add_def split: option.splits)

lemma get_setdefault:
  "get (setdefault k v d) k' =
     (if has_key d k' then get d k' else if k' = k then v else JNull)"
  by (auto simp: get_def get_or_def map_of_setdefault has_key_def)

lemma get_subtask_defaults:
  "get (subtask_defaults env s) ''subtasks'' =
     (if has_key s ''subtasks'' then get s ''subtasks'' else JList [])"
  by (simp add: subtask_defaults_def setdefaults_def get_setdefault has_key_setdefault)

lemma size_member: "x \<in> set xs \<Longrightarrow> size x < Suc (size_list size xs)"
  by (induction xs) auto

termination initialize_subtasks
proof (relation "measure (\<lambda>(env, task). size (get task ''subtasks''))", goal_cases)
  case 1
  then show ?case by simp
next
  case (2 env task task' subs sub s)
  have hk: "has_key task ''subtasks''"
  proof (rule ccontr)
    assume "\<not> has_key task ''subtasks''"
    then have "get task' ''subtasks'' = JList []"
      using 2(1) by (simp add: setitem_def get_def get_or_def update_conv')
    then show False using 2 by auto
  qed
  then have t: "get task ''subtasks'' = JList subs" using 2 by simp
  have "size (get (subtask_defaults env s) ''subtasks'') < size (JList subs)"
  proof (cases "has_key s ''subtasks''")
    case True
    then have "size (get s ''subtasks'') < size (JObj s)" by (rule get_size)
    also have "\<dots> < size (JList subs)" using 2(3,4) size_member[of sub subs] by simp
    finally show ?thesis using True by (simp add: get_subtask_defaults)
  next
    case False
    then show ?thesis using 2(3) by (cases subs) (auto simp: get_subtask_defaults)
  qed
  then show ?case using t by simp
qed

declare initialize_subtasks.simps [simp del]

text \<open>Lines 736 to 738 of \<^verbatim>\<open>load_tasks\<close>: a missing or blank title is replaced by the last
  title of the history, or by \<^verbatim>\<open>f'Untitled Task {i+1}'\<close>. \<open>None\<close>: the last history entry is
  not a dict, so \<^verbatim>\<open>.get\<close> raises and the task is skipped.\<close>

definition fix_title :: "nat \<Rightarrow> dict \<Rightarrow> dict option" where
  "fix_title i task =
     (if \<not> has_key task ''task'' \<or> blank (get task ''task'') then
        (let untitled = setitem ''task'' (JStr (''Untitled Task '' @ str_nat (i + 1))) task
         in if has_key task ''titleHistory'' \<and> truthy (get task ''titleHistory'') then
              (case get task ''titleHistory'' of
                 JList es \<Rightarrow>
                   (case last es of
                      JObj e \<Rightarrow>
                        if truthy (get e ''title'')
                        then Some (setitem ''task'' (get e ''title'') task)
                        else Some untitled
                    | _ \<Rightarrow> None)
               | _ \<Rightarrow> Some untitled)
            else Some untitled)
      else Some task)"

text \<open>The \<^verbatim>\<open>setdefault\<close> calls of line 739.\<close>

definition task_defaults :: "load_env \<Rightarrow> dict \<Rightarrow> dict" where
  "task_defaults env =
     setdefaults
       [(''timer_running'', JBool False), (''completed'', JBool False),
        (''annotations'', JList []), (''alarms'', JList []), (''timer'', JInt 0),
        (''start_time_unix'', JNull), (''due_date'', JNull), (''icon'', JNull),
        (''localTime'', JStr (le_local_time env)), (''createdAt'', JStr (le_now_iso env)),
        (''titleHistory'', JList []), (''subtasks'', JList []),
        (''subtasks_visible'', JBool True)]"

text \<open>\<^verbatim>\<open>if not isinstance(task.get(k), T): task[k] = dflt\<close>.\<close>

definition coerce :: "string \<Rightarrow> (json \<Rightarrow> bool) \<Rightarrow> json \<Rightarrow> dict \<Rightarrow> dict" where
  "coerce k ok dflt d = (if ok (get d k) then d else setitem k dflt d)"

fun is_number_or_none :: "json \<Rightarrow> bool" where
  "is_number_or_none JNull = True"
| "is_number_or_none v = is_number v"

fun is_str_or_none :: "json \<Rightarrow> bool" where
  "is_str_or_none JNull = True"
| "is_str_or_none (JStr s) = True"
| "is_str_or_none v = False"

text \<open>Lines 742 to 749 of \<^verbatim>\<open>load_tasks\<close>, and lines 1006 to 1013 of \<^verbatim>\<open>save_tasks\<close>.\<close>

definition coerce_fields :: "dict \<Rightarrow> dict" where
  "coerce_fields task =
     (coerce ''titleHistory'' is_list (JList [])
      (coerce ''completed'' is_bool (JBool False)
      (coerce ''icon'' is_str_or_none JNull
      (coerce ''due_date'' is_str_or_none JNull
      (coerce ''alarms'' is_list (JList [])
      (coerce ''annotations'' is_list (JList [])
      (coerce ''start_time_unix'' is_number_or_none JNull
      (coerce ''timer'' is_number (JInt 0) task))))))))"

text \<open>Lines 753 to 756: the alarm entry \<open>alarm_index\<close> of task \<open>i\<close>; \<open>None\<close> when the entry is
  dropped (not a dict, or without a target time or a sound file).\<close>

definition load_alarm :: "load_env \<Rightarrow> nat \<Rightarrow> nat \<Rightarrow> json \<Rightarrow> json option" where
  "load_alarm env i alarm_index alarm_entry =
     (case alarm_entry of
        JObj e \<Rightarrow>
          (let e = setdefaults
                     [(''target_timestamp_unix'', JNull), (''sound_file'', JNull),
                      (''enabled'', JBool False),
                      (''id'', JStr (le_alarm_id env i alarm_index))] e
           in if truthy (get e ''target_timestamp_unix'') \<and> truthy (get e ''sound_file'')
              then Some (JObj e) else None)
      | _ \<Rightarrow> None)"

definition valid_alarms :: "load_env \<Rightarrow> nat \<Rightarrow> dict \<Rightarrow> dict" where
  "valid_alarms env i task =
     (case get task ''alarms'' of
        JList alarms \<Rightarrow>
          setitem ''alarms''
            (JList (List.map_filter (\<lambda>(alarm_index, a). load_alarm env i alarm_index a)
                      (enumerate 0 alarms))) task
      | _ \<Rightarrow> setitem ''alarms'' (JList []) task)"

text \<open>Line 758: the current title is appended to the history unless the last entry has it.
  \<open>None\<close>: a key is missing or the last entry is not a dict.\<close>

definition append_title :: "load_env \<Rightarrow> dict \<Rightarrow> dict option" where
  "append_title env task =
     (case (map_of task ''titleHistory'', map_of task ''task'') of
        (Some (JList th), Some title) \<Rightarrow>
          (let entry = JObj [(''title'', title),
                             (''timestamp'', get_or task ''createdAt'' (JStr (le_now_iso env)))]
           in if th = [] then Some (setitem ''titleHistory'' (JList (th @ [entry])) task)
              else (case last th of
                      JObj e \<Rightarrow>
                        if \<not> py_eq (get e ''title'') title
                        then Some (setitem ''titleHistory'' (JList (th @ [entry])) task)
                        else Some task
                    | _ \<Rightarrow> None))
      | _ \<Rightarrow> None)"

text \<open>Line 759: every history entry gets a timestamp. \<open>None\<close>: an entry is not a dict.\<close>

definition stamp_entries :: "load_env \<Rightarrow> dict \<Rightarrow> dict option" where
  "stamp_entries env task =
     (case map_of task ''titleHistory'' of
        Some (JList th) \<Rightarrow>
          map_option (\<lambda>th'. setitem ''titleHistory'' (JList th') task)
            (those (map (\<lambda>entry. case entry of
                                    JObj e \<Rightarrow> Some (JObj (setdefault ''timestamp''
                                                             (JStr (le_now_iso env)) e))
                                  | _ \<Rightarrow> None) th))
      | _ \<Rightarrow> None)"

text \<open>Lines 760 to 762: the legacy key \<^verbatim>\<open>start_time\<close>.\<close>

definition legacy_start_time :: "dict \<Rightarrow> dict" where
  "legacy_start_time task =
     (if has_key task ''start_time'' \<and> is_number (get task ''start_time'') then
        delitem ''start_time''
          (if get task ''start_time_unix'' = JNull
           then setitem ''start_time_unix'' (get task ''start_time'') task
           else task)
      else task)"

text \<open>The body of the loop of \<^verbatim>\<open>load_tasks\<close> on element \<open>i\<close> of the task array. \<open>None\<close>:
  the body raised and the task is skipped (an element that is not a dict always raises).\<close>

definition load_task :: "load_env \<Rightarrow> nat \<Rightarrow> json \<Rightarrow> dict option" where
  "load_task env i t =
     (case t of
        JObj task \<Rightarrow>
          Option.bind (fix_title i task) (\<lambda>task.
          Option.bind (initialize_subtasks env (task_defaults env task)) (\<lambda>task.
          Option.bind (append_title env (valid_alarms env i (coerce_fields task))) (\<lambda>task.
          map_option legacy_start_time (stamp_entries env task))))
      | _ \<Rightarrow> None)"

text \<open>
  Lines 722 to 729: \<^verbatim>\<open>tuple(meta.get(k, (0, 0, 0, 1)))\<close> raises on a value that is not
  iterable, and \<^verbatim>\<open>timer_colors\<close>, \<^verbatim>\<open>stop_timer_colors\<close> and \<^verbatim>\<open>date_colors\<close> are Kivy
  \<^verbatim>\<open>DictProperty\<close> attributes, which refuse a value that is not a dict.
\<close>

definition colors_ok :: "dict \<Rightarrow> bool" where
  "colors_ok meta =
     ((\<forall>k \<in> set [''calendar_text_color'', ''calendar_date_number_color'', ''timer_label_color''].
         py_iter (get_or meta k (JList [JInt 0, JInt 0, JInt 0, JInt 1])) \<noteq> None) \<and>
      (\<forall>k \<in> set [''timer_colors'', ''stop_timer_colors'', ''date_colors''].
         is_dict (get_or meta k (JObj []))))"

text \<open>
  \<^verbatim>\<open>load_tasks()\<close> on the parsed content of the tasks file (\<open>None\<close>: the file is missing
  or is not JSON). Any exception outside the loop returns the empty list. The display
  settings that \<^verbatim>\<open>load_tasks\<close> copies from the metadata into attributes are not part of
  the state: \<^verbatim>\<open>save_tasks\<close> never reads them.
\<close>

definition load_tasks :: "load_env \<Rightarrow> json option \<Rightarrow> dict list" where
  "load_tasks env file =
     (case file of
        None \<Rightarrow> []
      | Some data \<Rightarrow>
          (case (case data of
                   JList ts \<Rightarrow> Some (JList ts, [])
                 | JObj meta \<Rightarrow> Some (get_or meta ''tasks'' (JList []), meta)
                 | _ \<Rightarrow> None) of
             None \<Rightarrow> []
           | Some (tasks_data, meta) \<Rightarrow>
               if \<not> colors_ok meta then []
               else (case py_iter tasks_data of
                       None \<Rightarrow> []
                     | Some ts \<Rightarrow>
                         List.map_filter (\<lambda>(i, t). load_task env i t) (enumerate 0 ts))))"

section \<open>Saving the task document\<close>

text \<open>\<^verbatim>\<open>mark_tasks_changed()\<close>.\<close>

definition mark_tasks_changed :: "app_state \<Rightarrow> app_state" where
  "mark_tasks_changed st = (if \<not> tasks_changed st then st\<lparr>tasks_changed := True\<rparr> else st)"

text \<open>\<^verbatim>\<open>len(v)\<close> raises \<^verbatim>\<open>TypeError\<close> on \<^verbatim>\<open>None\<close>, a number or a boolean.\<close>

fun has_len :: "json \<Rightarrow> bool" where
  "has_len (JStr s) = True"
| "has_len (JList xs) = True"
| "has_len (JObj kv) = True"
| "has_len v = False"

text \<open>Line 1005: the message for the log takes the length of three fields of the copy of
  the task, before the fields are coerced.\<close>

definition debug_line_ok :: "dict \<Rightarrow> bool" where
  "debug_line_ok task_copy =
     (has_len (get_or task_copy ''titleHistory'' (JList [])) \<and>
      has_len (get_or task_copy ''annotations'' (JList [])) \<and>
      has_len (get_or task_copy ''alarms'' (JList [])))"

text \<open>
  \<^verbatim>\<open>save_tasks(force)\<close>: the exception that leaves the call, if any, and the state. The
  loop that copies the tasks is outside the \<^verbatim>\<open>try\<close>: an exception there leaves the call
  before anything is written. The metadata is read back from the file; a file that is
  missing or unreadable gives the empty metadata, and so does a bare array. A file holding
  any other value makes \<^verbatim>\<open>meta.keys()\<close> raise: the handler reports it and nothing is
  written. Writing to disk is taken to succeed, and \<^verbatim>\<open>json.dump\<close> followed by
  \<^verbatim>\<open>json.load\<close> to give the value back.
\<close>

definition save_tasks :: "bool \<Rightarrow> app_state \<Rightarrow> error option \<times> app_state" where
  "save_tasks force st =
     (if \<not> tasks_changed st \<and> \<not> force then (None, st)
      else if \<not> list_all debug_line_ok (tasks st) then (Some TypeError, st)
      else
        let tasks_to_save = JList (map (\<lambda>task. JObj (coerce_fields task)) (tasks st));
            meta = (case tasks_file st of
                      None \<Rightarrow> Some []
                    | Some (JList ts) \<Rightarrow> Some []
                    | Some (JObj meta) \<Rightarrow> Some meta
                    | Some other \<Rightarrow> None)
        in case meta of
             None \<Rightarrow> (None, st)
           | Some meta \<Rightarrow>
               (None, st\<lparr>tasks_file := Some (JObj (setitem ''tasks'' tasks_to_save meta)),
                         tasks_changed := False\<rparr>))"

section \<open>Timers\<close>

text \<open>
  The body of the loop of \<^verbatim>\<open>check_and_resume_timers\<close>: the task and whether
  \<^verbatim>\<open>needs_save\<close> is set. \<open>now_unix\<close> is a float. An integer start time or timer too large
  for a float raises \<^verbatim>\<open>OverflowError\<close>, and adding the elapsed time to a timer that is not a
  number raises \<^verbatim>\<open>TypeError\<close>; nothing catches them.
\<close>

definition resume_timer :: "rounding \<Rightarrow> real \<Rightarrow> dict \<Rightarrow> error + (dict \<times> bool)" where
  "resume_timer fl now_unix task =
     (if truthy (get task ''timer_running'') \<and> is_number (get task ''start_time_unix'') then
        (case to_float fl (get task ''start_time_unix'') of
           Inl e \<Rightarrow> Inl e
         | Inr start \<Rightarrow>
             (case float_result fl (now_unix - start) of
                Inl e \<Rightarrow> Inl e
              | Inr elapsed_since_save \<Rightarrow>
                  if elapsed_since_save > 0 then
                    (case to_float fl (get_or task ''timer'' (JInt 0)) of
                       Inl e \<Rightarrow> Inl e
                     | Inr timer \<Rightarrow>
                         (case float_result fl (timer + elapsed_since_save) of
                            Inl e \<Rightarrow> Inl e
                          | Inr new_timer \<Rightarrow>
                              Inr (setitem ''start_time_unix'' (JFloat now_unix)
                                     (setitem ''timer'' (JFloat new_timer) task), True)))
                  else Inr (setitem ''start_time_unix'' (JFloat now_unix) task, True)))
      else if truthy (get task ''timer_running'') then
        Inr (setitem ''start_time_unix'' JNull (setitem ''timer_running'' (JBool False) task), True)
      else Inr (task, False))"

fun resume_timers :: "rounding \<Rightarrow> real \<Rightarrow> dict list \<Rightarrow> error + (dict list \<times> bool)" where
  "resume_timers fl now_unix [] = Inr ([], False)"
| "resume_timers fl now_unix (task # ts) =
     (case resume_timer fl now_unix task of
        Inl e \<Rightarrow> Inl e
      | Inr (task', c) \<Rightarrow>
          (case resume_timers fl now_unix ts of
             Inl e \<Rightarrow> Inl e
           | Inr (ts', c') \<Rightarrow> Inr (task' # ts', c \<or> c')))"

text \<open>\<^verbatim>\<open>check_and_resume_timers()\<close> with \<^verbatim>\<open>time.time()\<close> read as \<open>now_unix\<close>.\<close>

definition check_and_resume_timers :: "rounding \<Rightarrow> real \<Rightarrow> app_state \<Rightarrow> error + app_state" where
  "check_and_resume_timers fl now_unix st =
     (case resume_timers fl now_unix (tasks st) of
        Inl e \<Rightarrow> Inl e
      | Inr (ts, needs_save) \<Rightarrow>
          Inr (if needs_save then mark_tasks_changed (st\<lparr>tasks := ts\<rparr>) else st\<lparr>tasks := ts\<rparr>))"

text \<open>\<^verbatim>\<open>0 <= index < len(self.tasks)\<close>.\<close>

definition valid_index :: "int \<Rightarrow> app_state \<Rightarrow> bool" where
  "valid_index index st = (0 \<le> index \<and> index < int (length (tasks st)))"

text \<open>\<^verbatim>\<open>start_timer(index)\<close> with \<^verbatim>\<open>time.time()\<close> read as \<open>now\<close>.\<close>

definition start_timer :: "real \<Rightarrow> int \<Rightarrow> app_state \<Rightarrow> app_state" where
  "start_timer now index st =
     (if \<not> valid_index index st then st
      else
        let task = tasks st ! nat index in
        if truthy (get task ''timer_running'') \<or> truthy (get_or task ''completed'' (JBool False))
        then st
        else mark_tasks_changed
               (st\<lparr>tasks := (tasks st)[nat index :=
                      setitem ''start_time_unix'' (JFloat now)
                        (setitem ''timer_running'' (JBool True) task)]\<rparr>))"

text \<open>
  \<^verbatim>\<open>stop_timer(index)\<close> with \<^verbatim>\<open>time.time()\<close> read as \<open>now\<close>. Inside the \<^verbatim>\<open>try\<close>,
  \<^verbatim>\<open>elapsed\<close> is bound only when the start time is a number, the conversion of an integer
  to a float can overflow, and \<^verbatim>\<open>final_time += elapsed\<close> needs a numeric timer; in these
  failures the handler logs the exception and the task is left as it was.
\<close>

definition stop_timer :: "rounding \<Rightarrow> real \<Rightarrow> int \<Rightarrow> app_state \<Rightarrow> error + app_state" where
  "stop_timer fl now index st =
     (if \<not> valid_index index st then Inr st
      else
        let task = tasks st ! nat index in
        if \<not> truthy (get task ''timer_running'') then Inr st
        else
          let final_time = get_or task ''timer'' (JInt 0);
              start_time = get task ''start_time_unix''
          in if \<not> is_number start_time then Inr st
             else
               case to_float fl start_time of
                 Inl e \<Rightarrow> Inr st
               | Inr start \<Rightarrow>
                   (case float_result fl (now - start) of
                      Inl e \<Rightarrow> Inl e
                    | Inr elapsed \<Rightarrow>
                        (case (if elapsed > 0
                               then (case to_float fl final_time of
                                       Inl e \<Rightarrow> Inr None
                                     | Inr timer \<Rightarrow>
                                         (case float_result fl (timer + elapsed) of
                                            Inl e \<Rightarrow> Inl e
                                          | Inr new_timer \<Rightarrow> Inr (Some (JFloat new_timer))))
                               else Inr (Some final_time)) of
                           Inl e \<Rightarrow> Inl e
                         | Inr None \<Rightarrow> Inr st
                         | Inr (Some final_time) \<Rightarrow>
                             Inr (mark_tasks_changed
                                    (st\<lparr>tasks := (tasks st)[nat index :=
                                           setitem ''start_time_unix'' JNull
                                             (setitem ''timer_running'' (JBool False)
                                                (setitem ''timer'' final_time task))]\<rparr>)))))"

section \<open>Renaming\<close>

text \<open>
  \<^verbatim>\<open>save_title_action\<close> of \<^verbatim>\<open>change_task_title_gui\<close> on the selected task, with the text
  of the input field. \<^verbatim>\<open>current_title\<close> is \<^verbatim>\<open>task.get('task', '')\<close>. Reading
  \<^verbatim>\<open>task['titleHistory'][-1]['title']\<close> raises when the last entry has no title or is
  not a dict; nothing has been changed at that point. The dialog shows the current title
  in a text field, which takes a string only; the action is modelled for every task.
\<close>

definition now_iso_rename :: string where
  "now_iso_rename = ''2025-04-18T16:35:40+08:00''"

text \<open>\<^verbatim>\<open>v['title']\<close> on a history entry.\<close>

fun entry_title :: "json \<Rightarrow> error + json" where
  "entry_title (JObj e) = (case map_of e ''title'' of None \<Rightarrow> Inl KeyError | Some v \<Rightarrow> Inr v)"
| "entry_title v = Inl TypeError"

text \<open>\<^verbatim>\<open>not th or th[-1]['title'] != title\<close>.\<close>

definition last_title_differs :: "json list \<Rightarrow> json \<Rightarrow> error + bool" where
  "last_title_differs th title =
     (if th = [] then Inr True
      else case entry_title (last th) of
             Inl e \<Rightarrow> Inl e
           | Inr v \<Rightarrow> Inr (\<not> py_eq v title))"

definition history_entry :: "json \<Rightarrow> json" where
  "history_entry title = JObj [(''title'', title), (''timestamp'', JStr now_iso_rename)]"

text \<open>The two early returns: an empty input, and an input equal to the current title.\<close>

definition rename_applies :: "string \<Rightarrow> dict \<Rightarrow> bool" where
  "rename_applies text task =
     (py_strip text \<noteq> [] \<and> \<not> py_eq (JStr (py_strip text)) (get_or task ''task'' (JStr [])))"

definition rename_task :: "string \<Rightarrow> dict \<Rightarrow> error + dict" where
  "rename_task text task =
     (let current_title = get_or task ''task'' (JStr []);
          new_title = py_strip text
      in if \<not> rename_applies text task then Inr task
         else
           let th = (case map_of task ''titleHistory'' of Some (JList th) \<Rightarrow> th | _ \<Rightarrow> []) in
           case last_title_differs th current_title of
             Inl e \<Rightarrow> Inl e
           | Inr add_old \<Rightarrow>
               let th = (if add_old then th @ [history_entry current_title] else th) in
               case last_title_differs th (JStr new_title) of
                 Inl e \<Rightarrow> Inl e
               | Inr add_new \<Rightarrow>
                   let th = (if add_new then th @ [history_entry (JStr new_title)] else th);
                       th = (if length th > 10 then drop (length th - 10) th else th)
                   in Inr (setitem ''task'' (JStr new_title)
                             (setitem ''titleHistory'' (JList th) task)))"

definition save_title_action :: "string \<Rightarrow> int \<Rightarrow> app_state \<Rightarrow> error + app_state" where
  "save_title_action text index st =
     (if \<not> valid_index index st then Inr st
      else if \<not> rename_applies text (tasks st ! nat index) then Inr st
      else case rename_task text (tasks st ! nat index) of
             Inl e \<Rightarrow> Inl e
           | Inr task \<Rightarrow> Inr (mark_tasks_changed (st\<lparr>tasks := (tasks st)[nat index := task]\<rparr>)))"

section \<open>Alarms\<close>

text \<open>
  \<^verbatim>\<open>os.path.exists\<close> on the paths of the file system, which does not change during a call.
  An integer or a boolean is taken as a file descriptor: \<open>fds n\<close> is what the call gives
  for the integer \<open>n\<close>, whether the descriptor is open, or the exception for an integer
  that is no descriptor. Any other value that is not a string raises \<^verbatim>\<open>TypeError\<close>.
\<close>

type_synonym filesystem = "string \<Rightarrow> bool"

type_synonym descriptors = "int \<Rightarrow> error + bool"

definition path_exists :: "filesystem \<Rightarrow> descriptors \<Rightarrow> json \<Rightarrow> error + bool" where
  "path_exists fs fds v =
     (case v of
        JStr s \<Rightarrow> Inr (fs s)
      | JInt n \<Rightarrow> fds n
      | JBool b \<Rightarrow> fds (if b then 1 else 0)
      | _ \<Rightarrow> Inl TypeError)"

text \<open>\<^verbatim>\<open>os.path.basename(v)\<close> raises \<^verbatim>\<open>TypeError\<close> on a value that is not a string.\<close>

fun is_str :: "json \<Rightarrow> bool" where
  "is_str (JStr s) = True"
| "is_str v = False"

text \<open>\<^verbatim>\<open>self.scheduled_alarms.pop(alarm_id, None)\<close>, \<^verbatim>\<open>event.cancel()\<close>.\<close>

definition pop_alarm :: "json \<Rightarrow> app_state \<Rightarrow> error + (clock_event option \<times> app_state)" where
  "pop_alarm alarm_id st =
     (case to_key alarm_id of
        None \<Rightarrow> Inl TypeError
      | Some k \<Rightarrow>
          Inr (map_of (scheduled_alarms st) k,
               st\<lparr>scheduled_alarms := AList.delete k (scheduled_alarms st)\<rparr>))"

definition cancel :: "clock_event \<Rightarrow> app_state \<Rightarrow> app_state" where
  "cancel ev st = st\<lparr>cancelled := cancelled st @ [ev]\<rparr>"

definition disable :: "dict \<Rightarrow> dict" where
  "disable alarm_entry = setitem ''enabled'' (JBool False) alarm_entry"

text \<open>
  \<^verbatim>\<open>_schedule_alarm(task_index, alarm_entry)\<close> with \<^verbatim>\<open>time.time()\<close> read as \<open>now\<close>: the
  returned flag, the alarm entry as the call leaves it, and the state.
  \<^verbatim>\<open>Clock.schedule_once\<close> is taken to succeed. The message about a missing sound file
  takes the base name of the path. The delay of the event is the exact difference of the
  target and the clock, of which the float that the code passes on is the rounding; the
  sign of the two is the same.
\<close>

definition schedule_alarm ::
  "filesystem \<Rightarrow> descriptors \<Rightarrow> real \<Rightarrow> int \<Rightarrow> dict \<Rightarrow> app_state \<Rightarrow>
   error + (bool \<times> dict \<times> app_state)" where
  "schedule_alarm fs fds now task_index alarm_entry st =
     (let target_timestamp = get alarm_entry ''target_timestamp_unix'';
          alarm_id = get alarm_entry ''id'';
          sound_file = get alarm_entry ''sound_file'';
          is_enabled = get_or alarm_entry ''enabled'' (JBool False)
      in if \<not> (truthy target_timestamp \<and> truthy alarm_id \<and> truthy sound_file)
         then Inr (False, alarm_entry, st)
         else if \<not> truthy is_enabled then Inr (False, alarm_entry, st)
         else
           case path_exists fs fds sound_file of
             Inl e \<Rightarrow> Inl e
           | Inr False \<Rightarrow>
               if is_str sound_file then Inr (False, disable alarm_entry, mark_tasks_changed st)
               else Inl TypeError
           | Inr True \<Rightarrow>
               case to_float (\<lambda>x. x) target_timestamp of
                 Inl e \<Rightarrow> Inl e
               | Inr target \<Rightarrow>
                 let delay_seconds = target - now in
                 if delay_seconds \<le> 0 then
                   (if truthy (get alarm_entry ''enabled'')
                    then Inr (False, disable alarm_entry, mark_tasks_changed st)
                    else Inr (False, alarm_entry, st))
                 else
                   case pop_alarm alarm_id st of
                     Inl e \<Rightarrow> Inl e
                   | Inr (existing_event, st) \<Rightarrow>
                       let st = (case existing_event of
                                   Some ev \<Rightarrow> cancel ev st
                                 | None \<Rightarrow> st);
                           clock_event = \<lparr>ev_task = task_index, ev_alarm = alarm_id,
                                          ev_delay = delay_seconds\<rparr>
                       in Inr (True, alarm_entry,
                               st\<lparr>scheduled_alarms :=
                                    AList.update (the (to_key alarm_id)) clock_event
                                      (scheduled_alarms st)\<rparr>))"

text \<open>
  The body of the inner loop of \<^verbatim>\<open>_reschedule_pending_alarms\<close> on one alarm entry: the
  entry as it is kept, whether \<^verbatim>\<open>task_updated\<close> is set, and the state. \<open>now_ts\<close> is the
  time read at the start, \<open>later\<close> the time that \<^verbatim>\<open>_schedule_alarm\<close> reads.
\<close>

definition reschedule_alarm ::
  "filesystem \<Rightarrow> descriptors \<Rightarrow> real \<Rightarrow> real \<Rightarrow> int \<Rightarrow> json \<Rightarrow> app_state \<Rightarrow>
   error + (json \<times> bool \<times> app_state)"
  where
  "reschedule_alarm fs fds now_ts later task_index alarm st =
     (case alarm of
        JObj alarm_entry \<Rightarrow>
          if truthy (get alarm_entry ''enabled'') then
            (let target_time = get alarm_entry ''target_timestamp_unix'';
                 alarm_id = get alarm_entry ''id'';
                 sound_file = get alarm_entry ''sound_file''
             in if \<not> (truthy target_time \<and> truthy alarm_id \<and> truthy sound_file)
                then Inr (JObj (disable alarm_entry), True, st)
                else
                  case path_exists fs fds sound_file of
                    Inl e \<Rightarrow> Inl e
                  | Inr False \<Rightarrow> Inr (JObj (disable alarm_entry), True, st)
                  | Inr True \<Rightarrow>
                      if \<not> is_number target_time then Inl TypeError
                      else if num_val target_time \<le> now_ts
                      then Inr (JObj (disable alarm_entry), True, st)
                      else
                        case schedule_alarm fs fds later task_index alarm_entry st of
                          Inl e \<Rightarrow> Inl e
                        | Inr (True, a, st) \<Rightarrow> Inr (JObj a, False, st)
                        | Inr (False, a, st) \<Rightarrow> Inr (JObj (disable a), True, st))
          else Inr (alarm, False, st)
      | _ \<Rightarrow> Inl AttributeError)"

fun reschedule_alarms ::
  "filesystem \<Rightarrow> descriptors \<Rightarrow> real \<Rightarrow> (nat \<Rightarrow> real) \<Rightarrow> int \<Rightarrow> nat \<Rightarrow> json list \<Rightarrow>
   app_state \<Rightarrow> error + (json list \<times> bool \<times> app_state)" where
  "reschedule_alarms fs fds now_ts later task_index j [] st = Inr ([], False, st)"
| "reschedule_alarms fs fds now_ts later task_index j (alarm # rest) st =
     (case reschedule_alarm fs fds now_ts (later j) task_index alarm st of
        Inl e \<Rightarrow> Inl e
      | Inr (alarm', u, st) \<Rightarrow>
          (case reschedule_alarms fs fds now_ts later task_index (Suc j) rest st of
             Inl e \<Rightarrow> Inl e
           | Inr (rest', u', st) \<Rightarrow> Inr (alarm' # rest', u \<or> u', st)))"

text \<open>The body of the outer loop on one task. The entries of a list are changed in place;
  the keys of a dict and the characters of a string are strings, on which \<^verbatim>\<open>.get\<close> raises.\<close>

definition reschedule_task ::
  "filesystem \<Rightarrow> descriptors \<Rightarrow> real \<Rightarrow> (nat \<Rightarrow> real) \<Rightarrow> int \<Rightarrow> dict \<Rightarrow> app_state \<Rightarrow>
   error + (dict \<times> bool \<times> app_state)" where
  "reschedule_task fs fds now_ts later task_index task st =
     (case py_iter (get_or task ''alarms'' (JList [])) of
        None \<Rightarrow> Inl TypeError
      | Some alarms \<Rightarrow>
          (case reschedule_alarms fs fds now_ts later task_index 0 alarms st of
             Inl e \<Rightarrow> Inl e
           | Inr (alarms', task_updated, st) \<Rightarrow>
               Inr (if has_key task ''alarms'' \<and> is_list (get task ''alarms'')
                    then setitem ''alarms'' (JList alarms') task else task,
                    task_updated, st)))"

fun reschedule_tasks ::
  "filesystem \<Rightarrow> descriptors \<Rightarrow> real \<Rightarrow> (nat \<Rightarrow> nat \<Rightarrow> real) \<Rightarrow> nat \<Rightarrow> dict list \<Rightarrow>
   app_state \<Rightarrow> error + (dict list \<times> bool \<times> app_state)" where
  "reschedule_tasks fs fds now_ts later i [] st = Inr ([], False, st)"
| "reschedule_tasks fs fds now_ts later i (task # ts) st =
     (case reschedule_task fs fds now_ts (later i) (int i) task st of
        Inl e \<Rightarrow> Inl e
      | Inr (task', u, st) \<Rightarrow>
          (case reschedule_tasks fs fds now_ts later (Suc i) ts st of
             Inl e \<Rightarrow> Inl e
           | Inr (ts', u', st) \<Rightarrow> Inr (task' # ts', u \<or> u', st)))"

text \<open>\<^verbatim>\<open>_reschedule_pending_alarms()\<close>; \<open>later i j\<close> is the time that \<^verbatim>\<open>_schedule_alarm\<close>
  reads for alarm \<open>j\<close> of task \<open>i\<close>.\<close>

definition reschedule_pending_alarms ::
  "filesystem \<Rightarrow> descriptors \<Rightarrow> real \<Rightarrow> (nat \<Rightarrow> nat \<Rightarrow> real) \<Rightarrow> app_state \<Rightarrow>
   error + app_state" where
  "reschedule_pending_alarms fs fds now_ts later st =
     (case reschedule_tasks fs fds now_ts later 0 (tasks st) st of
        Inl e \<Rightarrow> Inl e
      | Inr (ts, tasks_need_saving, st) \<Rightarrow>
          Inr (if tasks_need_saving then mark_tasks_changed (st\<lparr>tasks := ts\<rparr>)
               else st\<lparr>tasks := ts\<rparr>))"

subsection \<open>Deleting a task\<close>

text \<open>A local variable that may not have been assigned yet.\<close>

datatype 'a local_var = Unbound | Bound 'a

text \<open>
  The loop of \<^verbatim>\<open>delete_task\<close> over the alarms of the task. The second \<^verbatim>\<open>if\<close> is a
  statement of its own, not part of the first: \<^verbatim>\<open>event\<close> keeps its value from the
  previous alarm when the id is falsy, and is unbound when no id was truthy so far.
\<close>

fun cancel_task_alarms ::
  "json list \<Rightarrow> clock_event option local_var \<Rightarrow> app_state \<Rightarrow> error + app_state" where
  "cancel_task_alarms [] event st = Inr st"
| "cancel_task_alarms (alarm # rest) event st =
     (case alarm of
        JObj a \<Rightarrow>
          (let alarm_id = get a ''id'' in
           case (if truthy alarm_id then
                   (case pop_alarm alarm_id st of
                      Inl e \<Rightarrow> Inl e
                    | Inr (ev, st) \<Rightarrow> Inr (Bound ev, st))
                 else Inr (event, st)) of
             Inl e \<Rightarrow> Inl e
           | Inr (event, st) \<Rightarrow>
               (case event of
                  Unbound \<Rightarrow> Inl UnboundLocalError
                | Bound None \<Rightarrow> cancel_task_alarms rest event st
                | Bound (Some ev) \<Rightarrow> cancel_task_alarms rest event (cancel ev st)))
      | _ \<Rightarrow> Inl AttributeError)"

text \<open>
  \<^verbatim>\<open>delete_task(index)\<close>. \<open>Inl\<close>: the loop raised, before anything was deleted. Reading
  the title of a task without the key \<^verbatim>\<open>task\<close> raises inside the \<^verbatim>\<open>try\<close>: the handler
  reports it and the task stays.
\<close>

definition delete_task :: "int \<Rightarrow> app_state \<Rightarrow> error + app_state" where
  "delete_task index st =
     (if \<not> valid_index index st then Inr st
      else
        let task_to_delete = tasks st ! nat index in
        case py_iter (get_or task_to_delete ''alarms'' (JList [])) of
          None \<Rightarrow> Inl TypeError
        | Some alarms \<Rightarrow>
            (case cancel_task_alarms alarms Unbound st of
               Inl e \<Rightarrow> Inl e
             | Inr st \<Rightarrow>
                 if \<not> has_key (tasks st ! nat index) ''task'' then Inr st
                 else
                   Inr (mark_tasks_changed (st\<lparr>tasks := list_pop (nat index) (tasks st)\<rparr>)
                          \<lparr>selected_index :=
                             (case selected_index st of
                                None \<Rightarrow> None
                              | Some s \<Rightarrow> if s = index then None
                                          else if s > index then Some (s - 1)
                                          else Some s)\<rparr>)))"

text \<open>\<^verbatim>\<open>delete_subtask(parent_task, subtask_index)\<close> on task \<open>parent\<close> of the list: here the
  event is cancelled inside the test of the id.\<close>

fun cancel_subtask_alarms :: "json list \<Rightarrow> app_state \<Rightarrow> error + app_state" where
  "cancel_subtask_alarms [] st = Inr st"
| "cancel_subtask_alarms (alarm # rest) st =
     (case alarm of
        JObj a \<Rightarrow>
          (let alarm_id = get a ''id'' in
           if truthy alarm_id then
             (case pop_alarm alarm_id st of
                Inl e \<Rightarrow> Inl e
              | Inr (None, st) \<Rightarrow> cancel_subtask_alarms rest st
              | Inr (Some ev, st) \<Rightarrow> cancel_subtask_alarms rest (cancel ev st))
           else cancel_subtask_alarms rest st)
      | _ \<Rightarrow> Inl AttributeError)"

text \<open>The alarm entries of a task and of all its nested subtasks, in the order a walk of
  the tree meets them.\<close>

fun subtree_alarms :: "json \<Rightarrow> json list" where
  "subtree_alarms (JObj task) =
     (case map_of task ''alarms'' of Some (JList alarms) \<Rightarrow> alarms | _ \<Rightarrow> []) @
     concat (map (\<lambda>(k, v). if k = ''subtasks''
                            then (case v of JList subs \<Rightarrow> concat (map subtree_alarms subs)
                                  | _ \<Rightarrow> [])
                            else []) task)"
| "subtree_alarms v = []"

text \<open>The keys under which the alarms of a subtree can be scheduled.\<close>

definition alarm_key :: "json \<Rightarrow> key option" where
  "alarm_key alarm = (case alarm of JObj a \<Rightarrow> to_key (get a ''id'') | _ \<Rightarrow> None)"

subsection \<open>Creating an alarm\<close>

text \<open>The texts of the spinners of the alarm dialog.\<close>

record alarm_form =
  year_text :: string
  month_text :: string
  day_text :: string
  hour_text :: string
  minute_text :: string
  second_text :: string
  ampm_text :: string
  sound_text :: string

text \<open>
  What \<^verbatim>\<open>_save_alarm\<close> takes from outside the repository: \<^verbatim>\<open>int(text)\<close> (\<open>None\<close> for
  \<^verbatim>\<open>ValueError\<close>), \<^verbatim>\<open>datetime(y, m, d, h, mi, s).timestamp()\<close> (\<open>None\<close> when it raises),
  \<^verbatim>\<open>os.path.join(ALARM_FOLDER, name)\<close>, the file system with the file descriptors, the
  two readings of the clock
  (in \<^verbatim>\<open>_save_alarm\<close> and in \<^verbatim>\<open>_schedule_alarm\<close>) and the alarm id that the format string
  with \<^verbatim>\<open>uuid4\<close> produces.
\<close>

record alarm_env =
  ae_int :: "string \<Rightarrow> int option"
  ae_timestamp :: "int \<Rightarrow> nat \<Rightarrow> int \<Rightarrow> int \<Rightarrow> int \<Rightarrow> int \<Rightarrow> real option"
  ae_join :: "string \<Rightarrow> string"
  ae_exists :: filesystem
  ae_descriptors :: descriptors
  ae_now :: real
  ae_later :: real
  ae_alarm_id :: string

text \<open>The messages of the exceptions that \<^verbatim>\<open>_save_alarm\<close> catches and shows.\<close>

datatype alarm_error =
    NotAnInteger
  | InvalidMonth
  | NoSoundSelected
  | SoundFileNotFound
  | InvalidDate
  | AlarmTimeNotFuture
  | TaskIndexOutOfBounds
  | NoAlarmList
  | Unexpected error

text \<open>\<^verbatim>\<open>list(calendar.month_name)\<close> in the English locale, and
  \<^verbatim>\<open>month_list.index(month_str) if month_str in month_list else 0\<close>.\<close>

definition month_list :: "string list" where
  "month_list = ['''', ''January'', ''February'', ''March'', ''April'', ''May'', ''June'',
                 ''July'', ''August'', ''September'', ''October'', ''November'', ''December'']"

fun index_of :: "'a \<Rightarrow> 'a list \<Rightarrow> nat" where
  "index_of x [] = 0"
| "index_of x (y # ys) = (if x = y then 0 else Suc (index_of x ys))"

definition month_number :: "string \<Rightarrow> nat" where
  "month_number month_str = (if month_str \<in> set month_list then index_of month_str month_list else 0)"

definition hour_24 :: "string \<Rightarrow> int \<Rightarrow> int" where
  "hour_24 ampm hour =
     (if ampm = ''PM'' \<and> hour \<noteq> 12 then hour + 12
      else if ampm = ''AM'' \<and> hour = 12 then 0
      else hour)"

text \<open>
  \<^verbatim>\<open>_save_alarm(task_index, ...)\<close>: the error shown, if any, and the state. Every check
  comes before the first change of the state.
\<close>

definition save_alarm ::
  "alarm_env \<Rightarrow> int \<Rightarrow> alarm_form \<Rightarrow> app_state \<Rightarrow> alarm_error option \<times> app_state" where
  "save_alarm env task_index form st =
     (case (ae_int env (year_text form), ae_int env (day_text form)) of
        (Some year, Some day) \<Rightarrow>
          let month = month_number (month_text form) in
          if month = 0 then (Some InvalidMonth, st)
          else
            (case (ae_int env (hour_text form), ae_int env (minute_text form),
                   ae_int env (second_text form)) of
               (Some hour, Some minute, Some second) \<Rightarrow>
                 if sound_text form = ''(None)'' then (Some NoSoundSelected, st)
                 else
                   let sound_file_full = ae_join env (sound_text form) in
                   if \<not> ae_exists env sound_file_full then (Some SoundFileNotFound, st)
                   else
                     (case ae_timestamp env year month day (hour_24 (ampm_text form) hour)
                             minute second of
                        None \<Rightarrow> (Some InvalidDate, st)
                      | Some target_timestamp_unix \<Rightarrow>
                          if target_timestamp_unix \<le> ae_now env
                          then (Some AlarmTimeNotFuture, st)
                          else
                            let alarm_entry =
                                  [(''id'', JStr (ae_alarm_id env)),
                                   (''target_timestamp_unix'', JFloat target_timestamp_unix),
                                   (''sound_file'', JStr sound_file_full),
                                   (''enabled'', JBool True)]
                            in if \<not> valid_index task_index st
                               then (Some TaskIndexOutOfBounds, st)
                               else
                                 let task = tasks st ! nat task_index in
                                 (case map_of task ''alarms'' of
                                    Some (JList alarms) \<Rightarrow>
                                      (case schedule_alarm (ae_exists env) (ae_descriptors env) (ae_later env)
                                              task_index alarm_entry (mark_tasks_changed st) of
                                         Inl e \<Rightarrow> (Some (Unexpected e), st)
                                       | Inr (ok, alarm_entry, st') \<Rightarrow>
                                           (None,
                                            st'\<lparr>tasks := (tasks st)[nat task_index :=
                                                  setitem ''alarms''
                                                    (JList (alarms @ [JObj alarm_entry]))
                                                    task]\<rparr>))
                                  | _ \<Rightarrow> (Some NoAlarmList, st)))
             | _ \<Rightarrow> (Some NotAnInteger, st))
      | _ \<Rightarrow> (Some NotAnInteger, st))"

section \<open>Start-up\<close>

text \<open>The state after \<^verbatim>\<open>self.tasks = self.load_tasks()\<close> in \<^verbatim>\<open>build()\<close>.\<close>

definition loaded_state :: "load_env \<Rightarrow> json option \<Rightarrow> app_state" where
  "loaded_state env doc =
     \<lparr>tasks = load_tasks env doc, selected_index = None, tasks_changed = False,
      scheduled_alarms = [], cancelled = [], tasks_file = doc\<rparr>"

text \<open>An environment for the examples.\<close>

definition demo_env :: load_env where
  "demo_env = \<lparr>le_now_iso = ''2026-11-04T09:00:00'', le_local_time = ''2026-11-04 09:00:00 PST'',
                le_alarm_id = (\<lambda>i j. ''0_0_1762218000.0_abcdef'')\<rparr>"


text \<open>Two documents in the legacy shape (a bare array): a task saved while its timer
  ran, and a task that is not running but carries a start time.\<close>

definition running_doc :: json where
  "running_doc = JList [JObj [(''task'', JStr ''Write report''), (''timer_running'', JBool True),
                              (''start_time_unix'', JInt 1000), (''timer'', JInt 10)]]"


text \<open>A document with a display name and a key that the application does not know.\<close>

definition meta_doc :: json where
  "meta_doc = JObj [(''user_display_name'', JStr ''Ann''), (''tasks'', JList []),
                    (''future_field'', JList [JInt 7, JNull])]"

text \<open>The title history of a task as \<^verbatim>\<open>save_title_action\<close> reads it (a value that is not a
  list counts as the empty history), and the property that no two consecutive entries
  have the same title.\<close>

definition title_history :: "dict \<Rightarrow> json list" where
  "title_history task = (case map_of task ''titleHistory'' of Some (JList th) \<Rightarrow> th | _ \<Rightarrow> [])"

definition no_repeated_title :: "json list \<Rightarrow> bool" where
  "no_repeated_title th = distinct_adj (map entry_title th)"

text \<open>A task whose history is full (ten entries), and a document whose history repeats a
  title.\<close>

definition full_history_task :: dict where
  "full_history_task =
     [(''task'', JStr ''t9''),
      (''titleHistory'',
       JList (map (\<lambda>s. JObj [(''title'', JStr s)])
                [''t0'', ''t1'', ''t2'', ''t3'', ''t4'', ''t5'', ''t6'', ''t7'', ''t8'', ''t9'']))]"

definition repeated_doc :: json where
  "repeated_doc =
     JList [JObj [(''task'', JStr ''b''),
                  (''titleHistory'',
                   JList [JObj [(''title'', JStr ''a''), (''timestamp'', JStr ''2026-01-01T00:00:00'')],
                          JObj [(''title'', JStr ''a''), (''timestamp'', JStr ''2026-01-01T00:00:00'')],
                          JObj [(''title'', JStr ''b''), (''timestamp'', JStr ''2026-01-02T00:00:00'')]])]]"

text \<open>The target time that the dialog denotes, when all its fields can be read; and the
  alarm entry that \<^verbatim>\<open>_save_alarm\<close> builds for it.\<close>

definition target_of_form :: "alarm_env \<Rightarrow> alarm_form \<Rightarrow> real option" where
  "target_of_form env form =
     (case (ae_int env (year_text form), ae_int env (day_text form), ae_int env (hour_text form),
            ae_int env (minute_text form), ae_int env (second_text form)) of
        (Some year, Some day, Some hour, Some minute, Some second) \<Rightarrow>
          if month_number (month_text form) = 0 then None
          else ae_timestamp env year (month_number (month_text form)) day
                 (hour_24 (ampm_text form) hour) minute second
      | _ \<Rightarrow> None)"

definition new_alarm :: "alarm_env \<Rightarrow> alarm_form \<Rightarrow> real \<Rightarrow> dict" where
  "new_alarm env form t =
     [(''id'', JStr (ae_alarm_id env)), (''target_timestamp_unix'', JFloat t),
      (''sound_file'', JStr (ae_join env (sound_text form))), (''enabled'', JBool True)]"

text \<open>An alarm dialog for the examples: the clock reads 2000 (2001 when the alarm is
  scheduled), the dialog denotes the time \<open>target\<close>, and \<^verbatim>\<open>alarm/beep.wav\<close> is the only
  sound file.\<close>

definition demo_int :: "string \<Rightarrow> int option" where
  "demo_int s = (if s = ''2030'' then Some 2030 else if s = ''1'' then Some 1
                 else if s = ''12'' then Some 12 else if s = ''0'' then Some 0 else None)"

definition demo_alarm_env :: "real \<Rightarrow> alarm_env" where
  "demo_alarm_env target =
     \<lparr>ae_int = demo_int, ae_timestamp = (\<lambda>y m d h mi s. Some target),
      ae_join = (\<lambda>name. ''alarm/'' @ name), ae_exists = (\<lambda>path. path = ''alarm/beep.wav''),
      ae_descriptors = (\<lambda>n. Inr (0 \<le> n \<and> n \<le> 2)),
      ae_now = 2000, ae_later = 2001, ae_alarm_id = ''0_3000.0_abcdef''\<rparr>"

definition demo_form :: "string \<Rightarrow> alarm_form" where
  "demo_form sound =
     \<lparr>year_text = ''2030'', month_text = ''January'', day_text = ''1'', hour_text = ''12'',
      minute_text = ''0'', second_text = ''0'', ampm_text = ''PM'', sound_text = sound\<rparr>"

definition one_task_state :: app_state where
  "one_task_state =
     \<lparr>tasks = [[(''task'', JStr ''Write report''), (''alarms'', JList [])]],
      selected_index = Some 0, tasks_changed = False, scheduled_alarms = [], cancelled = [],
      tasks_file = None\<rparr>"

text \<open>A document with a subtask that was saved while its timer ran.\<close>

definition nested_doc :: json where
  "nested_doc =
     JList [JObj [(''task'', JStr ''Project''),
                  (''subtasks'',
                   JList [JObj [(''task'', JStr ''Part''), (''timer_running'', JBool True),
                                (''start_time_unix'', JInt 1000), (''timer'', JInt 10)]])]]"

section \<open>Notions used in the statements and proofs\<close>

definition follow :: "nat \<Rightarrow> nat \<Rightarrow> nat \<Rightarrow> nat" where
  "follow f q s = (if s = f then q else if f < s \<and> s \<le> q then s - 1
                   else if q \<le> s \<and> s < f then s + 1 else s)"

definition clamp_position :: "app_state \<Rightarrow> int \<Rightarrow> int" where
  "clamp_position st t = max 0 (min (int (length (tasks st))) t)"

definition landing :: "app_state \<Rightarrow> int \<Rightarrow> int \<Rightarrow> int" where
  "landing st f t =
     (if f < clamp_position st t then clamp_position st t - 1 else clamp_position st t)"



text \<open>Two history entries whose titles are equal as Python compares them; the last ten
  elements of a list, the oldest dropped first.\<close>

definition same_title :: "json \<Rightarrow> json \<Rightarrow> bool" where
  "same_title a b =
     (case (entry_title a, entry_title b) of (Inr v, Inr w) \<Rightarrow> py_eq v w | _ \<Rightarrow> False)"

definition last_ten :: "'a list \<Rightarrow> 'a list" where
  "last_ten xs = drop (length xs - 10) xs"

text \<open>The entries that a rename to the stripped \<open>text\<close> puts at the end of the history: the
  current title unless the last entry already has it, then the new title.\<close>

definition old_title_is_last :: "dict \<Rightarrow> bool" where
  "old_title_is_last task =
     (title_history task \<noteq> [] \<and>
      (case entry_title (last (title_history task)) of
         Inr v \<Rightarrow> py_eq v (get_or task ''task'' (JStr []))
       | Inl e \<Rightarrow> False))"

definition added_entries :: "string \<Rightarrow> dict \<Rightarrow> json list" where
  "added_entries text task =
     (if old_title_is_last task then [] else [history_entry (get_or task ''task'' (JStr []))]) @
     [history_entry (JStr (py_strip text))]"

section \<open>Reordering: proofs\<close>

lemma nth_list_pop:
  "i < length xs \<Longrightarrow> j < length xs - 1 \<Longrightarrow>
   list_pop i xs ! j = (if j < i then xs ! j else xs ! Suc j)"
  by (auto simp: list_pop_def nth_append min_def)

lemma nth_list_insert:
  "i \<le> length xs \<Longrightarrow> j \<le> length xs \<Longrightarrow>
   list_insert i x xs ! j = (if j < i then xs ! j else if j = i then x else xs ! (j - 1))"
  by (auto simp: list_insert_def nth_append min_def nth_Cons')

lemma length_list_pop: "i < length xs \<Longrightarrow> length (list_pop i xs) = length xs - 1"
  by (auto simp: list_pop_def)

lemma length_list_insert: "length (list_insert i x xs) = Suc (length xs)"
  by (auto simp: list_insert_def)

lemma list_pop_insert: "i \<le> length xs \<Longrightarrow> list_pop i (list_insert i x xs) = xs"
  by (simp add: list_pop_def list_insert_def min_def)

lemma moved_nth:
  assumes "f < length xs" "q < length xs" "s < length xs"
  shows "list_insert q (xs ! f) (list_pop f xs) ! follow f q s = xs ! s \<and> follow f q s < length xs"
  using assms by (auto simp: follow_def nth_list_insert nth_list_pop length_list_pop)

lemma moved_tasks:
  assumes "0 \<le> f" "f < int (length (tasks st))"
    and "f \<noteq> clamp_position st t" "f + 1 \<noteq> clamp_position st t"
  shows "insert_task_at_position f t st =
    st\<lparr>tasks := list_insert (nat (landing st f t)) (tasks st ! nat f) (list_pop (nat f) (tasks st)),
       selected_index := (case selected_index st of None \<Rightarrow> None
            | Some s \<Rightarrow> if s = f then Some (landing st f t)
                        else if f < s \<and> s \<le> landing st f t then Some (s - 1)
                        else if landing st f t \<le> s \<and> s < f then Some (s + 1) else Some s),
       tasks_changed := True\<rparr>"
  using assms unfolding insert_task_at_position_def landing_def clamp_position_def Let_def
  by simp

lemma landing_range:
  assumes "0 \<le> f" "f < int (length (tasks st))"
    and "f \<noteq> clamp_position st t" "f + 1 \<noteq> clamp_position st t"
  shows "0 \<le> landing st f t \<and> landing st f t < int (length (tasks st))"
  using assms unfolding landing_def clamp_position_def by (simp add: max_def min_def split: if_splits)

lemma unmoved:
  assumes "0 \<le> f" "f < int (length (tasks st))"
    and "f = clamp_position st t \<or> f + 1 = clamp_position st t"
  shows "insert_task_at_position f t st = st"
  using assms unfolding insert_task_at_position_def clamp_position_def Let_def by auto


lemma follow_int:
  assumes "0 \<le> f" "0 \<le> q" "0 \<le> s"
  shows "int (follow (nat f) (nat q) (nat s)) =
     (if s = f then q else if f < s \<and> s \<le> q then s - 1 else if q \<le> s \<and> s < f then s + 1 else s)"
proof -
  obtain f' q' s' where "f = int f'" "q = int q'" "s = int s'"
    using assms by (metis nat_0_le)
  then show ?thesis by (auto simp: follow_def)
qed

text \<open>
  Claim C9. \<^verbatim>\<open>_insert_task_at_position(from_idx, to_position)\<close> on a valid \<open>from_idx\<close>
  clamps the target to \<open>[0, length]\<close>; when the clamped target is \<open>from_idx\<close> or
  \<open>from_idx + 1\<close> nothing changes; otherwise the task lands at the target lowered by one
  when it lay after \<open>from_idx\<close> (the shift caused by the removal), the other tasks keep
  their order, and a selected index that pointed at a task of the list points at the same
  task afterwards. On a list of five tasks, moving index 0 to position 3 puts the task at
  index 2, and a selection of index 0 becomes 2.
\<close>

theorem insert_task_at_position_spec:
  assumes "0 \<le> f" and "f < int (length (tasks st))"
  shows "let n = int (length (tasks st));
             p = max 0 (min n t);
             q = (if f < p then p - 1 else p);
             st' = insert_task_at_position f t st
         in 0 \<le> p \<and> p \<le> n \<and>
            (if f = p \<or> f + 1 = p then st' = st
             else 0 \<le> q \<and> q < n \<and>
                  length (tasks st') = length (tasks st) \<and>
                  tasks st' ! nat q = tasks st ! nat f \<and>
                  list_pop (nat q) (tasks st') = list_pop (nat f) (tasks st) \<and>
                  (selected_index st = Some f \<longrightarrow> selected_index st' = Some q)) \<and>
            (\<forall>s. selected_index st = Some s \<and> 0 \<le> s \<and> s < n \<longrightarrow>
               (\<exists>s'. selected_index st' = Some s' \<and> 0 \<le> s' \<and> s' < n \<and>
                     tasks st' ! nat s' = tasks st ! nat s)) \<and>
            (n = 5 \<and> f = 0 \<and> t = 3 \<longrightarrow>
               tasks st' = [tasks st ! 1, tasks st ! 2, tasks st ! 0, tasks st ! 3, tasks st ! 4] \<and>
               (selected_index st = Some 0 \<longrightarrow> selected_index st' = Some 2))"
proof -
  define n where "n = int (length (tasks st))"
  define p where "p = clamp_position st t"
  define q where "q = landing st f t"
  define st' where "st' = insert_task_at_position f t st"
  have p_eq: "max 0 (min n t) = p" by (simp add: p_def n_def clamp_position_def)
  have q_eq: "(if f < p then p - 1 else p) = q" by (simp add: p_def q_def landing_def)
  have clamp: "0 \<le> p" "p \<le> n" using assms by (auto simp: p_eq[symmetric] n_def)
  have same: "st' = st" if "f = p \<or> f + 1 = p"
    unfolding st'_def using unmoved[OF assms] that by (simp add: p_def)
  have fq: "nat f < length (tasks st)" using assms by auto
  have mv: "st' = st\<lparr>tasks := list_insert (nat q) (tasks st ! nat f) (list_pop (nat f) (tasks st)),
       selected_index := (case selected_index st of None \<Rightarrow> None
            | Some s \<Rightarrow> if s = f then Some q
                        else if f < s \<and> s \<le> q then Some (s - 1)
                        else if q \<le> s \<and> s < f then Some (s + 1) else Some s),
       tasks_changed := True\<rparr>" and qr: "0 \<le> q" "q < n"
    if "\<not> (f = p \<or> f + 1 = p)"
    using moved_tasks[OF assms, of t] landing_range[OF assms, of t] that
    unfolding st'_def p_def q_def n_def by simp_all
  have part2: "0 \<le> q \<and> q < n \<and> length (tasks st') = length (tasks st) \<and>
      tasks st' ! nat q = tasks st ! nat f \<and>
      list_pop (nat q) (tasks st') = list_pop (nat f) (tasks st) \<and>
      (selected_index st = Some f \<longrightarrow> selected_index st' = Some q)"
    if h: "\<not> (f = p \<or> f + 1 = p)"
  proof -
    have q: "nat q < length (tasks st)" using qr[OF h] by (simp add: n_def)
    have ts: "tasks st' = list_insert (nat q) (tasks st ! nat f) (list_pop (nat f) (tasks st))"
      by (simp add: mv[OF h])
    have "tasks st' ! follow (nat f) (nat q) (nat f) = tasks st ! nat f"
      using moved_nth[OF fq q fq] ts by simp
    then have a: "tasks st' ! nat q = tasks st ! nat f" by (simp add: follow_def)
    have "nat q \<le> length (list_pop (nat f) (tasks st))"
      using q fq by (simp add: length_list_pop)
    then have b: "list_pop (nat q) (tasks st') = list_pop (nat f) (tasks st)"
      by (simp add: ts list_pop_insert)
    have c: "length (tasks st') = length (tasks st)"
      using fq by (simp add: ts length_list_insert length_list_pop)
    have d: "selected_index st = Some f \<longrightarrow> selected_index st' = Some q"
      by (simp add: mv[OF h])
    show ?thesis using a b c d qr[OF h] by simp
  qed
  have part3: "\<exists>s'. selected_index st' = Some s' \<and> 0 \<le> s' \<and> s' < n \<and>
                     tasks st' ! nat s' = tasks st ! nat s"
    if s: "selected_index st = Some s" "0 \<le> s" "s < n" for s
  proof (cases "f = p \<or> f + 1 = p")
    case True
    then show ?thesis using same s by auto
  next
    case False
    have q: "nat q < length (tasks st)" using qr[OF False] by (simp add: n_def)
    have sl: "nat s < length (tasks st)" using s by (simp add: n_def)
    have ts: "tasks st' = list_insert (nat q) (tasks st ! nat f) (list_pop (nat f) (tasks st))"
      by (simp add: mv[OF False])
    have nth: "tasks st' ! follow (nat f) (nat q) (nat s) = tasks st ! nat s"
      and lt: "follow (nat f) (nat q) (nat s) < length (tasks st)"
      using moved_nth[OF fq q sl] ts by simp_all
    have sel: "selected_index st' = Some (if s = f then q else if f < s \<and> s \<le> q then s - 1
                        else if q \<le> s \<and> s < f then s + 1 else s)"
      using s(1) by (simp add: mv[OF False])
    have fi: "int (follow (nat f) (nat q) (nat s)) = (if s = f then q else if f < s \<and> s \<le> q then s - 1
                        else if q \<le> s \<and> s < f then s + 1 else s)"
      by (rule follow_int[OF assms(1) qr(1)[OF False] s(2)])
    have "selected_index st' = Some (int (follow (nat f) (nat q) (nat s)))"
      by (simp only: sel fi)
    moreover have "int (follow (nat f) (nat q) (nat s)) < n"
      using lt by (simp add: n_def)
    ultimately show ?thesis using nth by auto
  qed
  have part4: "tasks st' = [tasks st ! 1, tasks st ! 2, tasks st ! 0, tasks st ! 3, tasks st ! 4] \<and>
               (selected_index st = Some 0 \<longrightarrow> selected_index st' = Some 2)"
    if h: "n = 5 \<and> f = 0 \<and> t = 3"
  proof -
    from h have len: "length (tasks st) = 5" by (simp add: n_def)
    then obtain a b c d e where ts: "tasks st = [a, b, c, d, e]"
      by (auto simp: length_Suc_conv eval_nat_numeral)
    have pq: "p = 3" "q = 2" using h p_eq q_eq by auto
    then have np: "\<not> (f = p \<or> f + 1 = p)" using h by simp
    have two: "nat 2 = Suc (Suc 0)" by simp
    show ?thesis using h
      by (simp add: mv[OF np] pq ts list_insert_def list_pop_def two)
  qed
  have A: "if f = p \<or> f + 1 = p then st' = st
             else 0 \<le> q \<and> q < n \<and>
                  length (tasks st') = length (tasks st) \<and>
                  tasks st' ! nat q = tasks st ! nat f \<and>
                  list_pop (nat q) (tasks st') = list_pop (nat f) (tasks st) \<and>
                  (selected_index st = Some f \<longrightarrow> selected_index st' = Some q)"
  proof (cases "f = p \<or> f + 1 = p")
    case True
    show ?thesis by (subst if_P[OF True]) (rule same[OF True])
  next
    case False
    show ?thesis by (subst if_not_P[OF False]) (rule part2[OF False])
  qed
  have B: "\<forall>s. selected_index st = Some s \<and> 0 \<le> s \<and> s < n \<longrightarrow>
               (\<exists>s'. selected_index st' = Some s' \<and> 0 \<le> s' \<and> s' < n \<and>
                     tasks st' ! nat s' = tasks st ! nat s)"
    using part3 by blast
  have C: "n = 5 \<and> f = 0 \<and> t = 3 \<longrightarrow>
               tasks st' = [tasks st ! 1, tasks st ! 2, tasks st ! 0, tasks st ! 3, tasks st ! 4] \<and>
               (selected_index st = Some 0 \<longrightarrow> selected_index st' = Some 2)"
    using part4 by blast
  show ?thesis
    unfolding Let_def n_def[symmetric] p_eq q_eq st'_def[symmetric]
    by (rule conjI[OF clamp(1) conjI[OF clamp(2) conjI[OF A conjI[OF B C]]]])
qed

theorem insert_task_at_position_witness:
  "let st = \<lparr>tasks = [[(''task'', JStr ''a'')], [(''task'', JStr ''b'')], [(''task'', JStr ''c'')],
                       [(''task'', JStr ''d'')], [(''task'', JStr ''e'')]],
              selected_index = Some 0, tasks_changed = False, scheduled_alarms = [],
              cancelled = [], tasks_file = None\<rparr>;
       st' = insert_task_at_position 0 3 st
   in (0::int) \<le> 0 \<and> (0::int) < int (length (tasks st)) \<and>
      tasks st' = [[(''task'', JStr ''b'')], [(''task'', JStr ''c'')], [(''task'', JStr ''a'')],
                   [(''task'', JStr ''d'')], [(''task'', JStr ''e'')]] \<and>
      selected_index st' = Some 2"
  using insert_task_at_position_spec[of 0
      "\<lparr>tasks = [[(''task'', JStr ''a'')], [(''task'', JStr ''b'')], [(''task'', JStr ''c'')],
                       [(''task'', JStr ''d'')], [(''task'', JStr ''e'')]],
              selected_index = Some 0, tasks_changed = False, scheduled_alarms = [],
              cancelled = [], tasks_file = None\<rparr>" 3]
  by (simp add: Let_def)

section \<open>Basic facts about dicts and the state\<close>

lemma map_of_setitem: "map_of (setitem k v d) = (map_of d)(k \<mapsto> v)"
  by (simp add: setitem_def update_conv')

lemma get_setitem: "get (setitem k v d) k' = (if k' = k then v else get d k')"
  by (simp add: get_def get_or_def map_of_setitem)

lemma get_or_setitem: "get_or (setitem k v d) k' x = (if k' = k then v else get_or d k' x)"
  by (simp add: get_or_def map_of_setitem)

lemma has_key_setitem: "has_key (setitem k v d) k' \<longleftrightarrow> k' = k \<or> has_key d k'"
  by (simp add: has_key_def map_of_setitem)

lemma get_or_of_get: "get d k = v \<Longrightarrow> v \<noteq> JNull \<Longrightarrow> get_or d k x = v"
  by (auto simp: get_def get_or_def split: option.splits)

lemma tasks_mark_tasks_changed: "tasks (mark_tasks_changed st) = tasks st"
  by (simp add: mark_tasks_changed_def)

lemma valid_index_mark: "valid_index i (mark_tasks_changed st) = valid_index i st"
  by (simp add: valid_index_def tasks_mark_tasks_changed)

lemma valid_index_nat: "valid_index i st \<Longrightarrow> nat i < length (tasks st)"
  by (auto simp: valid_index_def)

lemma mark_tasks_changed_idem: "mark_tasks_changed (mark_tasks_changed st) = mark_tasks_changed st"
  by (simp add: mark_tasks_changed_def)

section \<open>Timers: proofs\<close>

lemma start_timer_running:
  assumes "valid_index index st"
    and "\<not> truthy (get (tasks st ! nat index) ''timer_running'')"
    and "\<not> truthy (get_or (tasks st ! nat index) ''completed'' (JBool False))"
  shows "valid_index index (start_timer now index st) \<and>
         get (tasks (start_timer now index st) ! nat index) ''timer_running'' = JBool True \<and>
         get (tasks (start_timer now index st) ! nat index) ''start_time_unix'' = JFloat now"
  using assms valid_index_nat[OF assms(1)]
  by (simp add: start_timer_def Let_def valid_index_def tasks_mark_tasks_changed get_setitem)

lemma start_timer_unchanged:
  assumes "\<not> valid_index index st \<or> truthy (get (tasks st ! nat index) ''timer_running'') \<or>
           truthy (get_or (tasks st ! nat index) ''completed'' (JBool False))"
  shows "start_timer now index st = st"
  using assms by (auto simp: start_timer_def Let_def)

lemma stop_timer_unchanged:
  assumes "\<not> valid_index index st \<or> \<not> truthy (get (tasks st ! nat index) ''timer_running'')"
  shows "stop_timer fl now index st = Inr st"
  using assms by (auto simp: stop_timer_def Let_def)

text \<open>
  Claim C8. \<^verbatim>\<open>stop_timer\<close> on a task whose timer is not running (or on an invalid
  index) leaves the whole state as it was, so \<^verbatim>\<open>timer_running\<close>, \<^verbatim>\<open>start_time_unix\<close> and
  \<^verbatim>\<open>timer\<close> are unchanged; and a second \<^verbatim>\<open>start_timer\<close> right after a first one, at
  whatever later time, changes nothing: the start time of the first call stays.
\<close>

theorem timer_idempotence:
  "(valid_index index st \<and> \<not> truthy (get (tasks st ! nat index) ''timer_running'')
      \<longrightarrow> stop_timer fl now index st = Inr st) \<and>
   (\<not> valid_index index st \<longrightarrow> stop_timer fl now index st = Inr st) \<and>
   start_timer now2 index (start_timer now1 index st) = start_timer now1 index st"
proof -
  have "start_timer now2 index (start_timer now1 index st) = start_timer now1 index st"
  proof (cases "\<not> valid_index index st \<or> truthy (get (tasks st ! nat index) ''timer_running'') \<or>
           truthy (get_or (tasks st ! nat index) ''completed'' (JBool False))")
    case True
    then show ?thesis by (simp only: start_timer_unchanged[OF True])
  next
    case False
    then have "valid_index index (start_timer now1 index st) \<and>
         get (tasks (start_timer now1 index st) ! nat index) ''timer_running'' = JBool True"
      using start_timer_running[of index st now1] by simp
    then show ?thesis by (intro start_timer_unchanged) simp
  qed
  then show ?thesis using stop_timer_unchanged[of index st fl now] by blast
qed

theorem timer_idempotence_witness:
  "let st = \<lparr>tasks = [[(''task'', JStr ''a''), (''timer'', JInt 5), (''timer_running'', JBool False),
                       (''start_time_unix'', JNull)]],
              selected_index = None, tasks_changed = False, scheduled_alarms = [],
              cancelled = [], tasks_file = None\<rparr>
   in valid_index 0 st \<and> \<not> truthy (get (tasks st ! nat 0) ''timer_running'') \<and>
      stop_timer (\<lambda>x. x) 77 0 st = Inr st \<and>
      \<not> valid_index 3 st \<and> stop_timer (\<lambda>x. x) 77 3 st = Inr st \<and>
      start_timer 20 0 (start_timer 10 0 st) = start_timer 10 0 st \<and>
      get (tasks (start_timer 20 0 (start_timer 10 0 st)) ! 0) ''start_time_unix'' = JFloat 10"
  using timer_idempotence[of 0 "\<lparr>tasks = [[(''task'', JStr ''a''), (''timer'', JInt 5), (''timer_running'', JBool False),
                       (''start_time_unix'', JNull)]],
              selected_index = None, tasks_changed = False, scheduled_alarms = [],
              cancelled = [], tasks_file = None\<rparr>" "\<lambda>x. x" 77 20 10]
    timer_idempotence[of 3 "\<lparr>tasks = [[(''task'', JStr ''a''), (''timer'', JInt 5), (''timer_running'', JBool False),
                       (''start_time_unix'', JNull)]],
              selected_index = None, tasks_changed = False, scheduled_alarms = [],
              cancelled = [], tasks_file = None\<rparr>" "\<lambda>x. x" 77 20 10]
  by (simp add: Let_def valid_index_def get_def get_or_def start_timer_def
        mark_tasks_changed_def setitem_def)

section \<open>Loading: proofs\<close>

lemma map_of_setdefaults:
  "map_of (setdefaults kvs d) k = (case map_of d k of Some v \<Rightarrow> Some v | None \<Rightarrow> map_of kvs k)"
  unfolding setdefaults_def
proof (induction kvs arbitrary: d)
  case Nil
  then show ?case by (simp split: option.splits)
next
  case (Cons kv kvs)
  obtain k' v' where kv: "kv = (k', v')" by (cases kv)
  show ?case
    by (simp add: kv Cons.IH map_of_setdefault has_key_def split: option.splits)
qed


lemma map_of_coerce:
  "map_of (coerce k ok dflt d) k' =
     (if k' = k \<and> \<not> ok (get d k) then Some dflt else map_of d k')"
  by (simp add: coerce_def map_of_setitem)

lemma get_coerce_other: "k' \<noteq> k \<Longrightarrow> get (coerce k ok dflt d) k' = get d k'"
  by (simp add: get_def get_or_def map_of_coerce)

lemma coerce_fields_other:
  assumes "k \<notin> {''timer'', ''start_time_unix'', ''annotations'', ''alarms'', ''due_date'',
                 ''icon'', ''completed'', ''titleHistory''}"
  shows "map_of (coerce_fields t) k = map_of t k"
  using assms by (simp add: coerce_fields_def map_of_coerce)

lemma coerce_ok:
  assumes "ok dflt" "\<not> ok JNull"
  shows "\<exists>v. map_of (coerce k ok dflt d) k = Some v \<and> ok v"
  using assms by (auto simp: map_of_coerce get_def get_or_def split: option.splits)


lemma coerce_fields_titleHistory:
  "\<exists>th. map_of (coerce_fields t) ''titleHistory'' = Some (JList th)"
proof -
  obtain v where "map_of (coerce_fields t) ''titleHistory'' = Some v" "is_list v"
    unfolding coerce_fields_def using coerce_ok[of is_list "JList []" "''titleHistory''"] by force
  then show ?thesis by (cases v) auto
qed

lemma initialize_subtasks_other:
  assumes "initialize_subtasks env t = Some t'" "k \<noteq> ''subtasks''"
  shows "map_of t' k = map_of t k"
  using assms
  by (subst (asm) initialize_subtasks.simps)
     (auto simp: Let_def map_of_setitem split: json.splits if_splits)



lemma fix_title_has: "fix_title i t = Some t' \<Longrightarrow> \<exists>v. map_of t' ''task'' = Some v"
  by (auto simp: fix_title_def Let_def map_of_setitem has_key_def split: if_splits json.splits)

lemma py_eq_list_refl: "(\<And>x. x \<in> set xs \<Longrightarrow> py_eq x x) \<Longrightarrow> py_eq_list xs xs"
  by (induction xs) auto

lemma py_eq_refl: "py_eq x x"
proof (induction x)
  case (JList xs)
  then show ?case by (simp add: py_eq_list_refl)
next
  case (JObj kv)
  have "py_eq v v" if "(k, v) \<in> set kv" for k v
    using JObj.IH[OF that] by simp
  moreover have "map_of kv k \<noteq> None" if "(k, v) \<in> set kv" for k v
    using weak_map_of_SomeI[OF that] by auto
  ultimately show ?case by (auto split: option.splits)
qed simp_all

lemma py_eq_JStr: "py_eq x (JStr s) \<longleftrightarrow> x = JStr s"
  by (cases x) auto

lemma py_eq_JStr_left: "py_eq (JStr s) x \<longleftrightarrow> x = JStr s"
  by (cases x) auto













lemma initialize_subtasks_leaf:
  "map_of task ''subtasks'' = Some (JList []) \<Longrightarrow>
   initialize_subtasks env task = Some (setitem ''subtasks'' (JList []) task)"
  by (subst initialize_subtasks.simps) (simp add: has_key_def get_def get_or_def)

lemma load_tasks_list:
  "load_tasks env (Some (JList ts)) =
     List.map_filter (\<lambda>(i, t). load_task env i t) (enumerate 0 ts)"
  by (simp add: load_tasks_def colors_ok_def get_or_def)



section \<open>Saving after loading: proofs\<close>

lemma filter_update_other:
  "filter (\<lambda>kv. fst kv \<noteq> k) (AList.update k v al) = filter (\<lambda>kv. fst kv \<noteq> k) al"
  by (induction al) auto

lemma save_tasks_file:
  assumes "tasks_file st = Some (JObj meta)"
  shows "snd (save_tasks force st) = st \<or>
         tasks_file (snd (save_tasks force st)) =
           Some (JObj (setitem ''tasks''
                   (JList (map (\<lambda>task. JObj (coerce_fields task)) (tasks st))) meta))"
  using assms by (simp add: save_tasks_def Let_def)

text \<open>
  Claim C4. When the tasks file holds a JSON object, \<^verbatim>\<open>save_tasks\<close> (forced or not,
  whatever happened to the tasks in between, and whether it returns or raises) leaves an
  object in the file in which every
  key other than \<^verbatim>\<open>tasks\<close> has the value it had, known to the application or not, and
  the bindings other than \<^verbatim>\<open>tasks\<close> are the same sequence as before. In particular this
  holds for a save that follows the load directly.
\<close>

theorem save_tasks_keeps_metadata:
  assumes "tasks_file st = Some (JObj meta)"
  shows "\<exists>meta'. tasks_file (snd (save_tasks force st)) = Some (JObj meta') \<and>
           (\<forall>k. k \<noteq> ''tasks'' \<longrightarrow> map_of meta' k = map_of meta k) \<and>
           filter (\<lambda>kv. fst kv \<noteq> ''tasks'') meta' = filter (\<lambda>kv. fst kv \<noteq> ''tasks'') meta"
proof -
  consider "snd (save_tasks force st) = st"
    | "tasks_file (snd (save_tasks force st)) =
         Some (JObj (setitem ''tasks''
                 (JList (map (\<lambda>task. JObj (coerce_fields task)) (tasks st))) meta))"
    using save_tasks_file[OF assms] by blast
  then show ?thesis
  proof cases
    case 1
    then show ?thesis using assms by simp
  next
    case 2
    then show ?thesis
      by (simp add: map_of_setitem) (simp add: setitem_def filter_update_other)
  qed
qed

theorem save_tasks_keeps_metadata_witness:
  "tasks_file (loaded_state demo_env (Some meta_doc)) = Some meta_doc \<and>
   tasks_file (snd (save_tasks True (loaded_state demo_env (Some meta_doc)))) = Some meta_doc \<and>
   tasks_file (snd (save_tasks False (loaded_state demo_env (Some meta_doc)))) = Some meta_doc \<and>
   fst (save_tasks True (loaded_state demo_env (Some meta_doc))) = None \<and>
   (\<exists>meta'. tasks_file (snd (save_tasks True (loaded_state demo_env (Some meta_doc)))) = Some (JObj meta') \<and>
      map_of meta' ''future_field'' = Some (JList [JInt 7, JNull]) \<and>
      map_of meta' ''user_display_name'' = Some (JStr ''Ann''))"
proof -
  have ld: "load_tasks demo_env (Some meta_doc) = []"
    by (simp add: load_tasks_def meta_doc_def colors_ok_def get_or_def map_filter_def)
  have f: "tasks_file (loaded_state demo_env (Some meta_doc)) =
             Some (JObj [(''user_display_name'', JStr ''Ann''), (''tasks'', JList []),
                    (''future_field'', JList [JInt 7, JNull])])"
    by (simp add: loaded_state_def meta_doc_def)
  have s: "tasks_file (snd (save_tasks force (loaded_state demo_env (Some meta_doc)))) = Some meta_doc"
    for force
    by (simp add: save_tasks_def loaded_state_def ld Let_def) (simp add: meta_doc_def setitem_def)
  have e: "fst (save_tasks True (loaded_state demo_env (Some meta_doc))) = None"
    by (simp add: save_tasks_def loaded_state_def ld Let_def) (simp add: meta_doc_def)
  show ?thesis
    using save_tasks_keeps_metadata[OF f, of True] s f e
    by (auto simp: meta_doc_def)
qed

section \<open>Creating an alarm: proofs\<close>

lemma schedule_new_alarm:
  assumes "fs (ae_join env (sound_text form))"
  shows "\<exists>ok a st'. schedule_alarm fs fds later i (new_alarm env form t) st = Inr (ok, a, st') \<and>
           tasks st' = tasks st \<and> tasks_file st' = tasks_file st \<and>
           selected_index st' = selected_index st \<and>
           (a = new_alarm env form t \<or> a = disable (new_alarm env form t) \<and> t \<le> later)"
  using assms
  by (auto simp: schedule_alarm_def new_alarm_def Let_def get_def get_or_def path_exists_def
        pop_alarm_def cancel_def mark_tasks_changed_def split: option.splits)

lemma save_alarm_unfold:
  "save_alarm env task_index form st =
     (case (ae_int env (year_text form), ae_int env (day_text form)) of
        (Some year, Some day) \<Rightarrow>
          if month_number (month_text form) = 0 then (Some InvalidMonth, st)
          else
            (case (ae_int env (hour_text form), ae_int env (minute_text form),
                   ae_int env (second_text form)) of
               (Some hour, Some minute, Some second) \<Rightarrow>
                 if sound_text form = ''(None)'' then (Some NoSoundSelected, st)
                 else if \<not> ae_exists env (ae_join env (sound_text form))
                 then (Some SoundFileNotFound, st)
                 else
                   (case target_of_form env form of
                      None \<Rightarrow> (Some InvalidDate, st)
                    | Some t \<Rightarrow>
                        if t \<le> ae_now env then (Some AlarmTimeNotFuture, st)
                        else if \<not> valid_index task_index st then (Some TaskIndexOutOfBounds, st)
                        else
                          (case map_of (tasks st ! nat task_index) ''alarms'' of
                             Some (JList alarms) \<Rightarrow>
                               (case schedule_alarm (ae_exists env) (ae_descriptors env) (ae_later env) task_index
                                       (new_alarm env form t) (mark_tasks_changed st) of
                                  Inl e \<Rightarrow> (Some (Unexpected e), st)
                                | Inr (ok, alarm_entry, st') \<Rightarrow>
                                    (None,
                                     st'\<lparr>tasks := (tasks st)[nat task_index :=
                                           setitem ''alarms'' (JList (alarms @ [JObj alarm_entry]))
                                             (tasks st ! nat task_index)]\<rparr>))
                           | _ \<Rightarrow> (Some NoAlarmList, st)))
             | _ \<Rightarrow> (Some NotAnInteger, st))
      | _ \<Rightarrow> (Some NotAnInteger, st))"
  unfolding save_alarm_def target_of_form_def new_alarm_def Let_def
  by (simp split: option.splits prod.splits)

lemma target_of_form_None:
  "ae_int env (year_text form) = None \<or> ae_int env (day_text form) = None \<or>
   ae_int env (hour_text form) = None \<or> ae_int env (minute_text form) = None \<or>
   ae_int env (second_text form) = None \<or> month_number (month_text form) = 0
   \<Longrightarrow> target_of_form env form = None"
  by (auto simp: target_of_form_def split: option.splits)

lemma save_alarm_outcome:
  "(\<exists>e. save_alarm env i form st = (Some e, st) \<and>
      ((e = NotAnInteger \<or> e = InvalidMonth) \<and> target_of_form env form = None \<or>
       e = NoSoundSelected \<and> sound_text form = ''(None)'' \<or>
       e = SoundFileNotFound \<and> sound_text form \<noteq> ''(None)'' \<and>
         \<not> ae_exists env (ae_join env (sound_text form)) \<or>
       e = InvalidDate \<and> target_of_form env form = None \<and>
         ae_exists env (ae_join env (sound_text form)) \<or>
       e = AlarmTimeNotFuture \<and> sound_text form \<noteq> ''(None)'' \<and>
         ae_exists env (ae_join env (sound_text form)) \<and>
         (\<exists>t. target_of_form env form = Some t \<and> t \<le> ae_now env) \<or>
       (e = TaskIndexOutOfBounds \<or> e = NoAlarmList) \<and> sound_text form \<noteq> ''(None)'' \<and>
         ae_exists env (ae_join env (sound_text form)) \<and>
         (\<exists>t. target_of_form env form = Some t \<and> ae_now env < t))) \<or>
   (\<exists>st' t alarms a. save_alarm env i form st = (None, st') \<and>
      target_of_form env form = Some t \<and> ae_now env < t \<and> sound_text form \<noteq> ''(None)'' \<and>
      ae_exists env (ae_join env (sound_text form)) \<and> valid_index i st \<and>
      map_of (tasks st ! nat i) ''alarms'' = Some (JList alarms) \<and>
      tasks st' = (tasks st)[nat i := setitem ''alarms'' (JList (alarms @ [JObj a]))
                                        (tasks st ! nat i)] \<and>
      (a = new_alarm env form t \<or> a = disable (new_alarm env form t) \<and> t \<le> ae_later env))"
proof (cases "ae_int env (year_text form) = None \<or> ae_int env (day_text form) = None")
  case True
  then have "save_alarm env i form st = (Some NotAnInteger, st)"
    by (auto simp: save_alarm_unfold split: option.splits)
  then show ?thesis using target_of_form_None[of env form] True by auto
next
  case ints1: False
  show ?thesis
  proof (cases "month_number (month_text form) = 0")
    case True
    then have "save_alarm env i form st = (Some InvalidMonth, st)"
      using ints1 by (auto simp: save_alarm_unfold split: option.splits)
    then show ?thesis using target_of_form_None[of env form] True by auto
  next
    case month: False
    show ?thesis
    proof (cases "ae_int env (hour_text form) = None \<or> ae_int env (minute_text form) = None \<or>
                  ae_int env (second_text form) = None")
      case True
      then have "save_alarm env i form st = (Some NotAnInteger, st)"
        using ints1 month by (auto simp: save_alarm_unfold split: option.splits)
      then show ?thesis using target_of_form_None[of env form] True by auto
    next
      case ints2: False
      have u: "save_alarm env i form st =
          (if sound_text form = ''(None)'' then (Some NoSoundSelected, st)
           else if \<not> ae_exists env (ae_join env (sound_text form))
           then (Some SoundFileNotFound, st)
           else
             (case target_of_form env form of
                None \<Rightarrow> (Some InvalidDate, st)
              | Some t \<Rightarrow>
                  if t \<le> ae_now env then (Some AlarmTimeNotFuture, st)
                  else if \<not> valid_index i st then (Some TaskIndexOutOfBounds, st)
                  else
                    (case map_of (tasks st ! nat i) ''alarms'' of
                       Some (JList alarms) \<Rightarrow>
                         (case schedule_alarm (ae_exists env) (ae_descriptors env) (ae_later env) i
                                 (new_alarm env form t) (mark_tasks_changed st) of
                            Inl e \<Rightarrow> (Some (Unexpected e), st)
                          | Inr (ok, alarm_entry, st') \<Rightarrow>
                              (None,
                               st'\<lparr>tasks := (tasks st)[nat i :=
                                     setitem ''alarms'' (JList (alarms @ [JObj alarm_entry]))
                                       (tasks st ! nat i)]\<rparr>))
                     | _ \<Rightarrow> (Some NoAlarmList, st))))"
        using ints1 ints2 month by (subst save_alarm_unfold) (auto split: option.splits)
      show ?thesis
      proof (cases "sound_text form = ''(None)''")
        case True
        then show ?thesis using u by simp
      next
        case sound: False
        show ?thesis
        proof (cases "ae_exists env (ae_join env (sound_text form))")
          case False
          then show ?thesis using u sound by simp
        next
          case exists: True
          show ?thesis
          proof (cases "target_of_form env form")
            case None
            then show ?thesis using u sound exists by simp
          next
            case (Some t)
            show ?thesis
            proof (cases "t \<le> ae_now env")
              case True
              then show ?thesis using u sound exists Some by simp
            next
              case future: False
              show ?thesis
              proof (cases "valid_index i st")
                case False
                then show ?thesis using u sound exists Some future by simp
              next
                case valid: True
                obtain ok a st1 where sch:
                  "schedule_alarm (ae_exists env) (ae_descriptors env) (ae_later env) i (new_alarm env form t)
                     (mark_tasks_changed st) = Inr (ok, a, st1)"
                  "a = new_alarm env form t \<or> a = disable (new_alarm env form t) \<and> t \<le> ae_later env"
                  using schedule_new_alarm[of "ae_exists env" env form "ae_descriptors env" "ae_later env" i t
                      "mark_tasks_changed st"] exists by blast
                show ?thesis
                proof (cases "\<exists>alarms. map_of (tasks st ! nat i) ''alarms'' = Some (JList alarms)")
                  case False
                  then have "save_alarm env i form st = (Some NoAlarmList, st)"
                    using u sound exists Some future valid
                    by (auto split: option.splits json.splits)
                  then show ?thesis using sound exists Some future by simp
                next
                  case True
                  then obtain alarms where al: "map_of (tasks st ! nat i) ''alarms'' = Some (JList alarms)"
                    by blast
                  have "save_alarm env i form st =
                      (None, st1\<lparr>tasks := (tasks st)[nat i :=
                                     setitem ''alarms'' (JList (alarms @ [JObj a]))
                                       (tasks st ! nat i)]\<rparr>)"
                    using u sound exists Some future valid al sch(1) by simp
                  then show ?thesis using sound exists Some future valid al sch(2) by auto
                qed
              qed
            qed
          qed
        qed
      qed
    qed
  qed
qed

text \<open>
  Claim C6. \<^verbatim>\<open>_save_alarm\<close> leaves the state as it was and shows an error when the target
  time of the dialog is not after the current time (the error is the one about the alarm
  time unless the sound check, which comes first, already failed), and when the chosen
  sound file does not exist (the sound error, when the dialog could be read and a sound
  was chosen). Every error leaves the state unchanged. When there is no error, the sound
  file exists, the target is after the current time, and the alarm list of the task has
  grown by one entry with \<^verbatim>\<open>enabled = True\<close>; \<^verbatim>\<open>_schedule_alarm\<close>, called next, leaves
  it so unless its own later reading of the clock has reached the target.
\<close>

theorem save_alarm_validation:
  "(\<forall>t. target_of_form env form = Some t \<and> t \<le> ae_now env \<longrightarrow>
      snd (save_alarm env i form st) = st \<and>
      fst (save_alarm env i form st) \<in>
        {Some NoSoundSelected, Some SoundFileNotFound, Some AlarmTimeNotFuture} \<and>
      (sound_text form \<noteq> ''(None)'' \<and> ae_exists env (ae_join env (sound_text form)) \<longrightarrow>
         fst (save_alarm env i form st) = Some AlarmTimeNotFuture)) \<and>
   (\<not> ae_exists env (ae_join env (sound_text form)) \<longrightarrow>
      snd (save_alarm env i form st) = st \<and>
      fst (save_alarm env i form st) \<in>
        {Some NotAnInteger, Some InvalidMonth, Some NoSoundSelected, Some SoundFileNotFound} \<and>
      (target_of_form env form \<noteq> None \<and> sound_text form \<noteq> ''(None)'' \<longrightarrow>
         fst (save_alarm env i form st) = Some SoundFileNotFound)) \<and>
   (fst (save_alarm env i form st) \<noteq> None \<longrightarrow> snd (save_alarm env i form st) = st) \<and>
   (fst (save_alarm env i form st) = None \<longrightarrow>
      (\<exists>t alarms a. target_of_form env form = Some t \<and> ae_now env < t \<and>
         sound_text form \<noteq> ''(None)'' \<and> ae_exists env (ae_join env (sound_text form)) \<and>
         valid_index i st \<and> map_of (tasks st ! nat i) ''alarms'' = Some (JList alarms) \<and>
         tasks (snd (save_alarm env i form st)) =
           (tasks st)[nat i := setitem ''alarms'' (JList (alarms @ [JObj a])) (tasks st ! nat i)] \<and>
         (a = new_alarm env form t \<or> a = disable (new_alarm env form t) \<and> t \<le> ae_later env)))"
proof -
  note o = save_alarm_outcome[of env i form st]
  have past: "snd (save_alarm env i form st) = st \<and>
      fst (save_alarm env i form st) \<in>
        {Some NoSoundSelected, Some SoundFileNotFound, Some AlarmTimeNotFuture} \<and>
      (sound_text form \<noteq> ''(None)'' \<and> ae_exists env (ae_join env (sound_text form)) \<longrightarrow>
         fst (save_alarm env i form st) = Some AlarmTimeNotFuture)"
    if "target_of_form env form = Some t \<and> t \<le> ae_now env" for t
    using o that by (elim disjE exE conjE) auto
  have missing: "snd (save_alarm env i form st) = st \<and>
      fst (save_alarm env i form st) \<in>
        {Some NotAnInteger, Some InvalidMonth, Some NoSoundSelected, Some SoundFileNotFound} \<and>
      (target_of_form env form \<noteq> None \<and> sound_text form \<noteq> ''(None)'' \<longrightarrow>
         fst (save_alarm env i form st) = Some SoundFileNotFound)"
    if "\<not> ae_exists env (ae_join env (sound_text form))"
    using o that by (elim disjE exE conjE) auto
  have err: "snd (save_alarm env i form st) = st" if "fst (save_alarm env i form st) \<noteq> None"
    using o that by (elim disjE exE conjE) auto
  have good: "\<exists>t alarms a. target_of_form env form = Some t \<and> ae_now env < t \<and>
         sound_text form \<noteq> ''(None)'' \<and> ae_exists env (ae_join env (sound_text form)) \<and>
         valid_index i st \<and> map_of (tasks st ! nat i) ''alarms'' = Some (JList alarms) \<and>
         tasks (snd (save_alarm env i form st)) =
           (tasks st)[nat i := setitem ''alarms'' (JList (alarms @ [JObj a])) (tasks st ! nat i)] \<and>
         (a = new_alarm env form t \<or> a = disable (new_alarm env form t) \<and> t \<le> ae_later env)"
    if "fst (save_alarm env i form st) = None"
    using o that by (elim disjE exE conjE) (simp_all, blast+)
  show ?thesis using past missing err good by blast
qed

lemma demo_target: "target_of_form (demo_alarm_env t) (demo_form sound) = Some t"
  by (simp add: target_of_form_def demo_alarm_env_def demo_form_def demo_int_def month_number_def
        month_list_def)

theorem save_alarm_validation_witness:
  "target_of_form (demo_alarm_env 1000) (demo_form ''beep.wav'') = Some 1000 \<and>
   (1000::real) \<le> ae_now (demo_alarm_env 1000) \<and>
   save_alarm (demo_alarm_env 1000) 0 (demo_form ''beep.wav'') one_task_state =
     (Some AlarmTimeNotFuture, one_task_state) \<and>
   \<not> ae_exists (demo_alarm_env 3000) (ae_join (demo_alarm_env 3000) (sound_text (demo_form ''gone.wav''))) \<and>
   save_alarm (demo_alarm_env 3000) 0 (demo_form ''gone.wav'') one_task_state =
     (Some SoundFileNotFound, one_task_state) \<and>
   fst (save_alarm (demo_alarm_env 3000) 0 (demo_form ''beep.wav'') one_task_state) = None \<and>
   map (\<lambda>t. get t ''alarms'')
     (tasks (snd (save_alarm (demo_alarm_env 3000) 0 (demo_form ''beep.wav'') one_task_state))) =
     [JList [JObj [(''id'', JStr ''0_3000.0_abcdef''), (''target_timestamp_unix'', JFloat 3000),
                   (''sound_file'', JStr ''alarm/beep.wav''), (''enabled'', JBool True)]]]"
proof -
  have e1: "\<not> ae_exists (demo_alarm_env 3000) (ae_join (demo_alarm_env 3000) (sound_text (demo_form ''gone.wav'')))"
    and e2: "ae_exists (demo_alarm_env 3000) (ae_join (demo_alarm_env 3000) (sound_text (demo_form ''beep.wav'')))"
    and e3: "ae_exists (demo_alarm_env 1000) (ae_join (demo_alarm_env 1000) (sound_text (demo_form ''beep.wav'')))"
    and n: "ae_now (demo_alarm_env 1000) = 2000" "sound_text (demo_form ''beep.wav'') \<noteq> ''(None)''"
       "sound_text (demo_form ''gone.wav'') \<noteq> ''(None)''"
    by (simp_all add: demo_alarm_env_def demo_form_def)
  have past: "save_alarm (demo_alarm_env 1000) 0 (demo_form ''beep.wav'') one_task_state =
     (Some AlarmTimeNotFuture, one_task_state)"
    using save_alarm_validation[of "demo_alarm_env 1000" "demo_form ''beep.wav''" 0 one_task_state]
      demo_target[of 1000 "''beep.wav''"] e3 n
    by (simp add: prod_eq_iff)
  have gone: "save_alarm (demo_alarm_env 3000) 0 (demo_form ''gone.wav'') one_task_state =
     (Some SoundFileNotFound, one_task_state)"
    using save_alarm_validation[of "demo_alarm_env 3000" "demo_form ''gone.wav''" 0 one_task_state]
      demo_target[of 3000 "''gone.wav''"] e1 n
    by (simp add: prod_eq_iff)
  have sch: "schedule_alarm (ae_exists (demo_alarm_env 3000)) (ae_descriptors (demo_alarm_env 3000))
               (ae_later (demo_alarm_env 3000)) 0
               (new_alarm (demo_alarm_env 3000) (demo_form ''beep.wav'') 3000)
               (mark_tasks_changed one_task_state) =
             Inr (True, new_alarm (demo_alarm_env 3000) (demo_form ''beep.wav'') 3000,
                  one_task_state\<lparr>tasks_changed := True,
                    scheduled_alarms := [(KStr ''0_3000.0_abcdef'',
                       \<lparr>ev_task = 0, ev_alarm = JStr ''0_3000.0_abcdef'', ev_delay = 999\<rparr>)]\<rparr>)"
    by (simp add: schedule_alarm_def new_alarm_def demo_alarm_env_def demo_form_def get_def
          get_or_def path_exists_def pop_alarm_def mark_tasks_changed_def one_task_state_def Let_def)
  have sel: "ae_int (demo_alarm_env 3000) = demo_int"
      "ae_now (demo_alarm_env 3000) = 2000"
      "year_text (demo_form ''beep.wav'') = ''2030''" "day_text (demo_form ''beep.wav'') = ''1''"
      "month_text (demo_form ''beep.wav'') = ''January''"
      "hour_text (demo_form ''beep.wav'') = ''12''" "minute_text (demo_form ''beep.wav'') = ''0''"
      "second_text (demo_form ''beep.wav'') = ''0''"
    by (simp_all add: demo_alarm_env_def demo_form_def)
  have st: "valid_index 0 one_task_state"
      "tasks one_task_state = [[(''task'', JStr ''Write report''), (''alarms'', JList [])]]"
    by (simp_all add: valid_index_def one_task_state_def)
  have good: "save_alarm (demo_alarm_env 3000) 0 (demo_form ''beep.wav'') one_task_state =
      (None, one_task_state\<lparr>tasks_changed := True,
                    scheduled_alarms := [(KStr ''0_3000.0_abcdef'',
                       \<lparr>ev_task = 0, ev_alarm = JStr ''0_3000.0_abcdef'', ev_delay = 999\<rparr>)],
                    tasks := [[(''task'', JStr ''Write report''),
                      (''alarms'', JList [JObj (new_alarm (demo_alarm_env 3000) (demo_form ''beep.wav'') 3000)])]]\<rparr>)"
    unfolding save_alarm_unfold demo_target
    by (simp add: sel e2 n st sch demo_int_def month_number_def month_list_def setitem_def)
  show ?thesis
    using past gone e1 demo_target[of 1000 "''beep.wav''"] n(1)
    by (simp add: good get_def get_or_def new_alarm_def) (simp add: demo_alarm_env_def demo_form_def)
qed

section \<open>Float arithmetic: proofs\<close>




lemma to_float_number: "to_float fl v = Inr x \<Longrightarrow> is_number v"
  by (cases v) (auto split: if_splits)



lemma float_result_Inr: "\<not> float_overflow x \<Longrightarrow> float_result fl x = Inr (fl x)"
  by (simp add: float_result_def)



section \<open>Reconciliation of timers: proofs\<close>

lemma resume_timers_length:
  "resume_timers fl now ts = Inr (ts', c) \<Longrightarrow> length ts' = length ts"
  by (induction ts arbitrary: ts' c) (auto split: sum.splits prod.splits)

lemma resume_timers_nth:
  "resume_timers fl now ts = Inr (ts', c) \<Longrightarrow> i < length ts \<Longrightarrow>
   \<exists>c'. resume_timer fl now (ts ! i) = Inr (ts' ! i, c')"
proof (induction ts arbitrary: ts' c i)
  case Nil
  then show ?case by simp
next
  case (Cons t ts)
  then show ?case by (cases i) (auto split: sum.splits prod.splits)
qed


lemma resume_timers_total:
  "\<forall>t \<in> set ts. \<exists>r. resume_timer fl now t = Inr r \<Longrightarrow> \<exists>r. resume_timers fl now ts = Inr r"
proof (induction ts)
  case Nil
  then show ?case by auto
next
  case (Cons t ts)
  then obtain r r' where "resume_timer fl now t = Inr r" "resume_timers fl now ts = Inr r'"
    by auto
  then show ?case by (cases r; cases r') simp
qed

lemma check_and_resume_timers_tasks:
  "check_and_resume_timers fl now st = Inr st' \<Longrightarrow>
   \<exists>c. resume_timers fl now (tasks st) = Inr (tasks st', c)"
  by (auto simp: check_and_resume_timers_def tasks_mark_tasks_changed
        split: sum.splits prod.splits if_splits)


lemma check_and_resume_timers_total:
  "\<forall>t \<in> set (tasks st). \<exists>r. resume_timer fl now t = Inr r \<Longrightarrow>
   \<exists>st'. check_and_resume_timers fl now st = Inr st'"
  using resume_timers_total[of "tasks st" fl now]
  by (auto simp: check_and_resume_timers_def split: sum.splits prod.splits)



lemma resume_timer_running:
  assumes "truthy (get t ''timer_running'')"
    and "to_float fl (get t ''start_time_unix'') = Inr T"
    and "\<not> float_overflow (N - T)"
  shows "resume_timer fl N t =
     (if 0 < fl (N - T) then
        (case to_float fl (get_or t ''timer'' (JInt 0)) of
           Inl e \<Rightarrow> Inl e
         | Inr S \<Rightarrow>
             (case float_result fl (S + fl (N - T)) of
                Inl e \<Rightarrow> Inl e
              | Inr new_timer \<Rightarrow>
                  Inr (setitem ''start_time_unix'' (JFloat N)
                         (setitem ''timer'' (JFloat new_timer) t), True)))
      else Inr (setitem ''start_time_unix'' (JFloat N) t, True))"
  using assms to_float_number[OF assms(2)]
  by (simp add: resume_timer_def float_result_Inr)




lemma load_running_doc:
  "load_tasks demo_env (Some running_doc) =
     [[(''task'', JStr ''Write report''), (''timer_running'', JBool True),
       (''start_time_unix'', JInt 1000), (''timer'', JInt 10),
       (''completed'', JBool False), (''annotations'', JList []), (''alarms'', JList []),
       (''due_date'', JNull),
       (''icon'', JNull), (''localTime'', JStr ''2026-11-04 09:00:00 PST''),
       (''createdAt'', JStr ''2026-11-04T09:00:00''),
       (''titleHistory'', JList [JObj [(''title'', JStr ''Write report''),
                                      (''timestamp'', JStr ''2026-11-04T09:00:00'')]]),
       (''subtasks'', JList []), (''subtasks_visible'', JBool True)]]"
  unfolding load_tasks_list running_doc_def
  apply (simp add: map_filter_def enumerate_eq_zip load_task_def)
  apply (simp add: fix_title_def has_key_def get_def get_or_def py_strip_def py_isspace_def)
  apply (simp add: task_defaults_def setdefaults_def setdefault_def has_key_def demo_env_def)
  apply (simp add: initialize_subtasks_leaf setitem_def)
  apply (simp add: coerce_fields_def coerce_def get_def get_or_def setitem_def)
  apply (simp add: valid_alarms_def get_def get_or_def setitem_def map_filter_def enumerate_eq_zip)
  apply (simp add: append_title_def get_or_def setitem_def)
  apply (simp add: stamp_entries_def setitem_def setdefault_def has_key_def)
  apply (simp add: legacy_start_time_def has_key_def)
  done

lemma initialize_nested:
  "initialize_subtasks demo_env
     [(''task'', JStr ''Project''),
      (''subtasks'',
       JList [JObj [(''task'', JStr ''Part''), (''timer_running'', JBool True),
                    (''start_time_unix'', JInt 1000), (''timer'', JInt 10)]]),
      (''timer_running'', JBool False), (''completed'', JBool False),
      (''annotations'', JList []), (''alarms'', JList []), (''timer'', JInt 0),
      (''start_time_unix'', JNull), (''due_date'', JNull), (''icon'', JNull),
      (''localTime'', JStr ''2026-11-04 09:00:00 PST''),
      (''createdAt'', JStr ''2026-11-04T09:00:00''),
      (''titleHistory'', JList []), (''subtasks_visible'', JBool True)] =
   Some
     [(''task'', JStr ''Project''),
      (''subtasks'',
       JList [JObj [(''task'', JStr ''Part''), (''timer_running'', JBool True),
                    (''start_time_unix'', JInt 1000), (''timer'', JInt 10),
                    (''completed'', JBool False), (''annotations'', JList []),
                    (''alarms'', JList []), (''due_date'', JNull), (''icon'', JNull),
                    (''localTime'', JStr ''2026-11-04 09:00:00 PST''),
                    (''createdAt'', JStr ''2026-11-04T09:00:00''),
                    (''titleHistory'', JList []), (''subtasks'', JList [])]]),
      (''timer_running'', JBool False), (''completed'', JBool False),
      (''annotations'', JList []), (''alarms'', JList []), (''timer'', JInt 0),
      (''start_time_unix'', JNull), (''due_date'', JNull), (''icon'', JNull),
      (''localTime'', JStr ''2026-11-04 09:00:00 PST''),
      (''createdAt'', JStr ''2026-11-04T09:00:00''),
      (''titleHistory'', JList []), (''subtasks_visible'', JBool True)]"
  apply (subst initialize_subtasks.simps)
  apply (simp add: has_key_def get_def get_or_def)
  apply (simp add: subtask_defaults_def setdefaults_def setdefault_def has_key_def demo_env_def)
  apply (simp add: initialize_subtasks_leaf setitem_def)
  done

lemma load_nested_doc:
  "load_tasks demo_env (Some nested_doc) =
     [[(''task'', JStr ''Project''),
       (''subtasks'',
        JList [JObj [(''task'', JStr ''Part''), (''timer_running'', JBool True),
                     (''start_time_unix'', JInt 1000), (''timer'', JInt 10),
                     (''completed'', JBool False), (''annotations'', JList []),
                     (''alarms'', JList []), (''due_date'', JNull), (''icon'', JNull),
                     (''localTime'', JStr ''2026-11-04 09:00:00 PST''),
                     (''createdAt'', JStr ''2026-11-04T09:00:00''),
                     (''titleHistory'', JList []), (''subtasks'', JList [])]]),
       (''timer_running'', JBool False), (''completed'', JBool False),
       (''annotations'', JList []), (''alarms'', JList []), (''timer'', JInt 0),
       (''start_time_unix'', JNull), (''due_date'', JNull), (''icon'', JNull),
       (''localTime'', JStr ''2026-11-04 09:00:00 PST''),
       (''createdAt'', JStr ''2026-11-04T09:00:00''),
       (''titleHistory'', JList [JObj [(''title'', JStr ''Project''),
                                      (''timestamp'', JStr ''2026-11-04T09:00:00'')]]),
       (''subtasks_visible'', JBool True)]]"
  unfolding load_tasks_list nested_doc_def
  apply (simp add: map_filter_def enumerate_eq_zip load_task_def)
  apply (simp add: fix_title_def has_key_def get_def get_or_def py_strip_def py_isspace_def)
  apply (simp add: task_defaults_def setdefaults_def setdefault_def has_key_def demo_env_def)
  apply (simp add: initialize_nested[unfolded demo_env_def])
  apply (simp add: coerce_fields_def coerce_def get_def get_or_def setitem_def)
  apply (simp add: valid_alarms_def get_def get_or_def setitem_def map_filter_def enumerate_eq_zip)
  apply (simp add: append_title_def get_or_def setitem_def)
  apply (simp add: stamp_entries_def setitem_def setdefault_def has_key_def)
  apply (simp add: legacy_start_time_def has_key_def)
  done

text \<open>
  Claim C3, as amended. In \<^verbatim>\<open>check_and_resume_timers\<close> at time \<open>N\<close>, a top-level task whose
  \<^verbatim>\<open>timer_running\<close> is true, whose start time is a number with the float \<open>T\<close> and whose
  timer is a number with the float \<open>S\<close>, with a positive elapsed time \<open>fl (N - T)\<close> (for
  floats: \<open>N > T\<close>) and no overflow, ends with \<^verbatim>\<open>timer\<close> the float sum
  \<open>fl (S + fl (N - T))\<close>, \<^verbatim>\<open>start_time_unix = N\<close> and \<^verbatim>\<open>timer_running\<close> as it was, nothing else
  changed; the timer is \<open>S + (N - T)\<close> when the two roundings are exact. The call returns
  when the loop body returns on the other tasks. For the document with 1000 and 10 read
  at 1100 the timer is 110, these four integers being floats.
\<close>

theorem check_and_resume_timers_running:
  assumes "i < length (tasks st)"
    and "truthy (get (tasks st ! i) ''timer_running'')"
    and "to_float fl (get (tasks st ! i) ''start_time_unix'') = Inr T"
    and "to_float fl (get_or (tasks st ! i) ''timer'' (JInt 0)) = Inr S"
    and "0 < fl (N - T)"
    and "\<not> float_overflow (N - T)"
    and "\<not> float_overflow (S + fl (N - T))"
  shows "(\<forall>st'. check_and_resume_timers fl N st = Inr st' \<longrightarrow>
            length (tasks st') = length (tasks st) \<and>
            tasks st' ! i =
              setitem ''start_time_unix'' (JFloat N)
                (setitem ''timer'' (JFloat (fl (S + fl (N - T)))) (tasks st ! i)) \<and>
            get (tasks st' ! i) ''timer'' = JFloat (fl (S + fl (N - T))) \<and>
            get (tasks st' ! i) ''start_time_unix'' = JFloat N \<and>
            get (tasks st' ! i) ''timer_running'' = get (tasks st ! i) ''timer_running'' \<and>
            (fl (N - T) = N - T \<and> fl (S + (N - T)) = S + (N - T) \<longrightarrow>
               get (tasks st' ! i) ''timer'' = JFloat (S + (N - T)))) \<and>
         ((\<forall>j < length (tasks st). j \<noteq> i \<longrightarrow> (\<exists>r. resume_timer fl N (tasks st ! j) = Inr r)) \<longrightarrow>
            (\<exists>st'. check_and_resume_timers fl N st = Inr st')) \<and>
         (fl 1000 = 1000 \<and> fl 10 = 10 \<and> fl 100 = 100 \<and> fl 110 = 110 \<longrightarrow>
            (\<exists>st'. check_and_resume_timers fl 1100 (loaded_state demo_env (Some running_doc)) =
                     Inr st' \<and>
               map (\<lambda>t. (get t ''timer'', get t ''start_time_unix'', get t ''timer_running''))
                 (tasks st') = [(JFloat 110, JFloat 1100, JBool True)]))"
proof -
  let ?t' = "setitem ''start_time_unix'' (JFloat N)
               (setitem ''timer'' (JFloat (fl (S + fl (N - T)))) (tasks st ! i))"
  have body: "resume_timer fl N (tasks st ! i) = Inr (?t', True)"
    using resume_timer_running[OF assms(2,3,6)] assms(4,5) float_result_Inr[OF assms(7)]
    by simp
  have fields: "length (tasks st') = length (tasks st) \<and> tasks st' ! i = ?t' \<and>
            get (tasks st' ! i) ''timer'' = JFloat (fl (S + fl (N - T))) \<and>
            get (tasks st' ! i) ''start_time_unix'' = JFloat N \<and>
            get (tasks st' ! i) ''timer_running'' = get (tasks st ! i) ''timer_running'' \<and>
            (fl (N - T) = N - T \<and> fl (S + (N - T)) = S + (N - T) \<longrightarrow>
               get (tasks st' ! i) ''timer'' = JFloat (S + (N - T)))"
    if ret: "check_and_resume_timers fl N st = Inr st'" for st'
  proof -
    obtain c where r: "resume_timers fl N (tasks st) = Inr (tasks st', c)"
      using check_and_resume_timers_tasks[OF ret] by blast
    obtain c' where "resume_timer fl N (tasks st ! i) = Inr (tasks st' ! i, c')"
      using resume_timers_nth[OF r assms(1)] by blast
    then have "tasks st' ! i = ?t'" using body by simp
    then show ?thesis using resume_timers_length[OF r] by (simp add: get_setitem)
  qed
  have total: "\<exists>st'. check_and_resume_timers fl N st = Inr st'"
    if others: "\<forall>j < length (tasks st). j \<noteq> i \<longrightarrow> (\<exists>r. resume_timer fl N (tasks st ! j) = Inr r)"
  proof (rule check_and_resume_timers_total, rule ballI)
    fix t assume "t \<in> set (tasks st)"
    then obtain j where j: "j < length (tasks st)" "tasks st ! j = t"
      unfolding in_set_conv_nth by blast
    show "\<exists>r. resume_timer fl N t = Inr r"
    proof (cases "j = i")
      case True
      then show ?thesis using body j by auto
    next
      case False
      then show ?thesis using others j by auto
    qed
  qed
  have scenario: "\<exists>st'. check_and_resume_timers fl 1100 (loaded_state demo_env (Some running_doc)) =
                     Inr st' \<and>
               map (\<lambda>t. (get t ''timer'', get t ''start_time_unix'', get t ''timer_running''))
                 (tasks st') = [(JFloat 110, JFloat 1100, JBool True)]"
    if "fl 1000 = 1000 \<and> fl 10 = 10 \<and> fl 100 = 100 \<and> fl 110 = 110"
    using that
    by (simp add: check_and_resume_timers_def loaded_state_def load_running_doc resume_timer_def
          get_def get_or_def float_result_def float_overflow_def setitem_def
          mark_tasks_changed_def)
  show ?thesis using fields total scenario by blast
qed

theorem check_and_resume_timers_running_witness:
  "let st = \<lparr>tasks = [[(''task'', JStr ''a''), (''timer_running'', JBool True),
                       (''start_time_unix'', JInt 1000), (''timer'', JInt 10)]],
              selected_index = None, tasks_changed = False, scheduled_alarms = [],
              cancelled = [], tasks_file = None\<rparr>
   in (0::nat) < length (tasks st) \<and>
      truthy (get (tasks st ! 0) ''timer_running'') \<and>
      to_float (\<lambda>x. x) (get (tasks st ! 0) ''start_time_unix'') = Inr 1000 \<and>
      to_float (\<lambda>x. x) (get_or (tasks st ! 0) ''timer'' (JInt 0)) = Inr 10 \<and>
      \<not> float_overflow (1100 - 1000) \<and> \<not> float_overflow (10 + (1100 - 1000)) \<and>
      (\<exists>st'. check_and_resume_timers (\<lambda>x. x) 1100 st = Inr st' \<and>
         get (tasks st' ! 0) ''timer'' = JFloat 110 \<and>
         get (tasks st' ! 0) ''start_time_unix'' = JFloat 1100 \<and>
         get (tasks st' ! 0) ''timer_running'' = JBool True)"
  using check_and_resume_timers_running[of 0
      "\<lparr>tasks = [[(''task'', JStr ''a''), (''timer_running'', JBool True),
                       (''start_time_unix'', JInt 1000), (''timer'', JInt 10)]],
              selected_index = None, tasks_changed = False, scheduled_alarms = [],
              cancelled = [], tasks_file = None\<rparr>" "\<lambda>x. x" 1000 10 1100]
  by (auto simp: Let_def get_def get_or_def float_overflow_def)

text \<open>
  Claim C3 fails as stated: \<^verbatim>\<open>check_and_resume_timers\<close> walks the top-level tasks only. A
  subtask that is loaded with \<^verbatim>\<open>timer_running = True\<close>, \<^verbatim>\<open>start_time_unix = 1000\<close> and
  \<^verbatim>\<open>timer = 10\<close> has the same three values after the reconciliation at 1100.
\<close>

theorem check_and_resume_timers_counterexample:
  "(case check_and_resume_timers (\<lambda>x. x) 1100 (loaded_state demo_env (Some nested_doc)) of
      Inr st' \<Rightarrow>
        map (\<lambda>t. get t ''subtasks'') (tasks st') =
          [JList [JObj [(''task'', JStr ''Part''), (''timer_running'', JBool True),
                        (''start_time_unix'', JInt 1000), (''timer'', JInt 10),
                        (''completed'', JBool False), (''annotations'', JList []),
                        (''alarms'', JList []), (''due_date'', JNull), (''icon'', JNull),
                        (''localTime'', JStr ''2026-11-04 09:00:00 PST''),
                        (''createdAt'', JStr ''2026-11-04T09:00:00''),
                        (''titleHistory'', JList []), (''subtasks'', JList [])]]]
    | Inl e \<Rightarrow> False)"
  by (simp add: check_and_resume_timers_def loaded_state_def load_nested_doc resume_timer_def
        get_def get_or_def)

section \<open>Reconciliation after loading: proofs\<close>







section \<open>Renaming: proofs\<close>

lemma distinct_adj_drop: "distinct_adj xs \<Longrightarrow> distinct_adj (drop n xs)"
  using distinct_adj_appendD2[of "take n xs" "drop n xs"] by simp

lemma entry_title_history_entry: "entry_title (history_entry v) = Inr v"
  by (simp add: history_entry_def)

lemma no_repeated_title_snoc:
  assumes "no_repeated_title th" "last_title_differs th v = Inr True"
  shows "no_repeated_title (th @ [history_entry v])"
proof (cases "th = []")
  case True
  then show ?thesis by (simp add: no_repeated_title_def)
next
  case False
  then obtain w where w: "entry_title (last th) = Inr w" "\<not> py_eq w v"
    using assms(2) by (auto simp: last_title_differs_def split: sum.splits)
  then have "w \<noteq> v" using py_eq_refl by auto
  then show ?thesis
    using assms(1) False w(1)
    by (simp add: no_repeated_title_def distinct_adj_append_iff entry_title_history_entry last_map)
qed

lemma rename_task_unfold:
  assumes "rename_applies text task"
  shows "rename_task text task =
     (case last_title_differs (title_history task) (get_or task ''task'' (JStr [])) of
        Inl e \<Rightarrow> Inl e
      | Inr a \<Rightarrow>
          (case last_title_differs
                  (if a then title_history task @ [history_entry (get_or task ''task'' (JStr []))]
                   else title_history task) (JStr (py_strip text)) of
             Inl e \<Rightarrow> Inl e
           | Inr b \<Rightarrow>
               Inr (setitem ''task'' (JStr (py_strip text))
                     (setitem ''titleHistory''
                        (JList (let th = (if a then title_history task @
                                                  [history_entry (get_or task ''task'' (JStr []))]
                                          else title_history task);
                                    th = (if b then th @ [history_entry (JStr (py_strip text))]
                                          else th)
                                in if length th > 10 then drop (length th - 10) th else th))
                        task))))"
  unfolding rename_task_def title_history_def Let_def using assms
  by (simp only: not_True_eq_False if_False)

lemma last_title_differs_new:
  assumes "rename_applies text task"
    and "last_title_differs th (get_or task ''task'' (JStr [])) = Inr a"
  shows "last_title_differs
           (if a then th @ [history_entry (get_or task ''task'' (JStr []))] else th)
           (JStr (py_strip text)) = Inr True"
proof (cases a)
  case True
  have "get_or task ''task'' (JStr []) \<noteq> JStr (py_strip text)"
    using assms(1) by (auto simp: rename_applies_def)
  then show ?thesis
    using True by (simp add: last_title_differs_def entry_title_history_entry py_eq_JStr)
next
  case False
  then have ne: "th \<noteq> []" using assms(2) by (auto simp: last_title_differs_def)
  then obtain v where v: "entry_title (last th) = Inr v" "py_eq v (get_or task ''task'' (JStr []))"
    using assms(2) False by (auto simp: last_title_differs_def split: sum.splits)
  have "v \<noteq> JStr (py_strip text)"
    using v(2) assms(1) by (auto simp: rename_applies_def)
  then show ?thesis using False ne v(1) by (simp add: last_title_differs_def py_eq_JStr)
qed

lemma last_title_differs_total:
  assumes "th = [] \<or> (\<exists>v. entry_title (last th) = Inr v)"
  shows "\<exists>a. last_title_differs th v = Inr a"
  using assms by (auto simp: last_title_differs_def)

lemma title_history_setitem:
  "title_history (setitem ''task'' v (setitem ''titleHistory'' (JList th) task)) = th"
  by (simp add: title_history_def map_of_setitem)

lemma py_strip_nbsp: "py_strip [CHR ''b'', CHR 0xA0] = ''b''"
  by (simp add: py_strip_def py_isspace_def)

lemma last_title_differs_old:
  assumes "last_title_differs (title_history task) (get_or task ''task'' (JStr [])) = Inr a"
  shows "a = (\<not> old_title_is_last task)"
  using assms
  by (auto simp: last_title_differs_def old_title_is_last_def split: sum.splits if_splits)

lemma appended_differs:
  assumes "last_title_differs th v = Inr True" "0 < length th"
  shows "\<not> same_title ((th @ history_entry v # rest) ! (length th - 1))
                       ((th @ history_entry v # rest) ! length th)"
proof -
  have ne: "th \<noteq> []" using assms(2) by auto
  then obtain w where w: "entry_title (last th) = Inr w" "\<not> py_eq w v"
    using assms(1) by (auto simp: last_title_differs_def split: sum.splits)
  have "(th @ history_entry v # rest) ! (length th - 1) = last th"
    using ne assms(2) by (simp add: nth_append last_conv_nth)
  then show ?thesis using w by (simp add: same_title_def entry_title_history_entry)
qed

text \<open>
  Claim C7, as amended. A rename to a new title (an input that is not blank after
  \<^verbatim>\<open>strip()\<close> and differs from the current title) that returns leaves this history: the
  history as it was, then the current title unless the last entry already has it, then the
  new title, and of all that the last ten entries (the oldest are dropped first). Nothing
  else of the task changes but the title. So the history has at most 10 entries and ends
  with the new title; no entry that the rename adds has the title of the entry before it;
  and when no two consecutive entries had the same title before, none have afterwards. The
  rename returns whenever the history is empty or its last entry has a title.
\<close>

theorem rename_task_history:
  assumes "rename_applies text task"
  shows "(\<forall>task'. rename_task text task = Inr task' \<longrightarrow>
            task' = setitem ''task'' (JStr (py_strip text))
                      (setitem ''titleHistory''
                         (JList (last_ten (title_history task @ added_entries text task))) task) \<and>
            title_history task' = last_ten (title_history task @ added_entries text task) \<and>
            length (title_history task') \<le> 10 \<and>
            last (title_history task') = history_entry (JStr (py_strip text)) \<and>
            (\<forall>i. length (title_history task) \<le> i \<and> 0 < i \<and>
                 i < length (title_history task @ added_entries text task) \<longrightarrow>
                 \<not> same_title ((title_history task @ added_entries text task) ! (i - 1))
                              ((title_history task @ added_entries text task) ! i)) \<and>
            (no_repeated_title (title_history task) \<longrightarrow>
               no_repeated_title (title_history task'))) \<and>
         (title_history task = [] \<or> (\<exists>v. entry_title (last (title_history task)) = Inr v) \<longrightarrow>
            (\<exists>task'. rename_task text task = Inr task'))"
proof -
  define cur where "cur = get_or task ''task'' (JStr [])"
  define th where "th = title_history task"
  define new where "new = JStr (py_strip text)"
  define th' where "th' = th @ added_entries text task"
  have step: "rename_task text task =
      Inr (setitem ''task'' new (setitem ''titleHistory'' (JList (last_ten th')) task))"
    if a: "last_title_differs th cur = Inr a" for a
  proof -
    have b: "last_title_differs (if a then th @ [history_entry cur] else th) new = Inr True"
      unfolding cur_def new_def
      by (rule last_title_differs_new[OF assms a[unfolded cur_def]])
    have "rename_task text task =
       (case last_title_differs th cur of
        Inl e \<Rightarrow> Inl e
      | Inr a \<Rightarrow>
          (case last_title_differs (if a then th @ [history_entry cur] else th) new of
             Inl e \<Rightarrow> Inl e
           | Inr b \<Rightarrow>
               Inr (setitem ''task'' new
                     (setitem ''titleHistory''
                        (JList (let th = (if a then th @ [history_entry cur] else th);
                                    th = (if b then th @ [history_entry new] else th)
                                in if length th > 10 then drop (length th - 10) th else th))
                        task))))"
      by (simp only: rename_task_unfold[OF assms] cur_def th_def new_def)
    also have "\<dots> = Inr (setitem ''task'' new
                     (setitem ''titleHistory''
                        (JList (let th = (if a then th @ [history_entry cur] else th);
                                    th = (if True then th @ [history_entry new] else th)
                                in if length th > 10 then drop (length th - 10) th else th))
                        task))"
      by (simp only: a b sum.case)
    also have "(let th = (if a then th @ [history_entry cur] else th);
                    th = (if True then th @ [history_entry new] else th)
                in if length th > 10 then drop (length th - 10) th else th) = last_ten th'"
      using last_title_differs_old[OF a[unfolded th_def cur_def]]
      by (simp add: Let_def last_ten_def th'_def added_entries_def cur_def new_def)
    finally show ?thesis .
  qed
  have added: "\<not> same_title (th' ! (i - 1)) (th' ! i)"
    if a: "last_title_differs th cur = Inr a" and i: "length th \<le> i" "0 < i" "i < length th'"
    for a i
  proof -
    have b: "last_title_differs (if a then th @ [history_entry cur] else th) new = Inr True"
      unfolding cur_def new_def
      by (rule last_title_differs_new[OF assms a[unfolded cur_def]])
    have old: "a = (\<not> old_title_is_last task)"
      by (rule last_title_differs_old[OF a[unfolded th_def cur_def]])
    show ?thesis
    proof (cases a)
      case True
      then have th': "th' = th @ history_entry cur # [history_entry new]"
        using old by (simp add: th'_def added_entries_def cur_def new_def)
      have "i = length th \<or> i = length th + 1" using i by (auto simp: th')
      then consider "i = length th" | "i = length th + 1" by blast
      then show ?thesis
      proof cases
        case 1
        then show ?thesis
          using appended_differs[of th cur "[history_entry new]"] a True i(2)
          by (simp add: th')
      next
        case 2
        have "th' = (th @ [history_entry cur]) @ history_entry new # []" by (simp add: th')
        then show ?thesis
          using appended_differs[of "th @ [history_entry cur]" new "[]"] b True 2
          by simp
      qed
    next
      case False
      then have th': "th' = th @ history_entry new # []"
        using old by (simp add: th'_def added_entries_def new_def)
      then have "i = length th" using i by simp
      then show ?thesis
        using appended_differs[of th new "[]"] b False i(2) by (simp add: th')
    qed
  qed
  have part1: "task' = setitem ''task'' new
                        (setitem ''titleHistory'' (JList (last_ten th')) task) \<and>
            title_history task' = last_ten th' \<and>
            length (title_history task') \<le> 10 \<and>
            last (title_history task') = history_entry new \<and>
            (\<forall>i. length th \<le> i \<and> 0 < i \<and> i < length th' \<longrightarrow>
                 \<not> same_title (th' ! (i - 1)) (th' ! i)) \<and>
            (no_repeated_title th \<longrightarrow> no_repeated_title (title_history task'))"
    if r: "rename_task text task = Inr task'" for task'
  proof -
    have "rename_task text task =
       (case last_title_differs th cur of
        Inl e \<Rightarrow> Inl e
      | Inr a \<Rightarrow>
          (case last_title_differs (if a then th @ [history_entry cur] else th) new of
             Inl e \<Rightarrow> Inl e
           | Inr b \<Rightarrow>
               Inr (setitem ''task'' new
                     (setitem ''titleHistory''
                        (JList (let th = (if a then th @ [history_entry cur] else th);
                                    th = (if b then th @ [history_entry new] else th)
                                in if length th > 10 then drop (length th - 10) th else th))
                        task))))"
      by (simp only: rename_task_unfold[OF assms] cur_def th_def new_def)
    then obtain a where a: "last_title_differs th cur = Inr a"
      using r by (cases "last_title_differs th cur") simp_all
    have old: "a = (\<not> old_title_is_last task)"
      by (rule last_title_differs_old[OF a[unfolded th_def cur_def]])
    define th1 where "th1 = (if a then th @ [history_entry cur] else th)"
    have th'1: "th' = th1 @ [history_entry new]"
      using old by (simp add: th'_def th1_def added_entries_def cur_def new_def)
    have eq: "task' = setitem ''task'' new
                        (setitem ''titleHistory'' (JList (last_ten th')) task)"
      using step[OF a] r by simp
    then have res: "title_history task' = last_ten th'"
      by (simp only: title_history_setitem)
    have len: "length (title_history task') \<le> 10" by (simp add: res last_ten_def)
    have lst: "last (title_history task') = history_entry new"
      by (simp add: res th'1 last_ten_def)
    have keep: "no_repeated_title (title_history task')" if nr: "no_repeated_title th"
    proof -
      have 1: "no_repeated_title th1"
        using nr a no_repeated_title_snoc[of th cur] by (cases a) (simp_all add: th1_def)
      have "last_title_differs th1 new = Inr True"
        unfolding cur_def new_def th1_def
        by (rule last_title_differs_new[OF assms a[unfolded cur_def]])
      then have "no_repeated_title th'"
        using no_repeated_title_snoc[OF 1] by (simp add: th'1)
      then show ?thesis
        by (simp add: res last_ten_def no_repeated_title_def distinct_adj_drop drop_map[symmetric])
    qed
    show ?thesis using eq res len lst keep added[OF a] by blast
  qed
  have part2: "\<exists>task'. rename_task text task = Inr task'"
    if ok: "th = [] \<or> (\<exists>v. entry_title (last th) = Inr v)"
  proof -
    obtain a where a: "last_title_differs th cur = Inr a"
      using last_title_differs_total[OF ok] by blast
    show ?thesis using step[OF a] by blast
  qed
  show ?thesis
    using part1 part2 unfolding th_def new_def th'_def by blast
qed

theorem rename_task_history_witness:
  "rename_applies '' new title '' full_history_task \<and>
   no_repeated_title (title_history full_history_task) \<and>
   length (title_history full_history_task) = 10 \<and>
   (\<exists>task'. rename_task '' new title '' full_history_task = Inr task' \<and>
      length (title_history task') = 10 \<and>
      map entry_title (title_history task') =
        map (\<lambda>s. Inr (JStr s))
          [''t1'', ''t2'', ''t3'', ''t4'', ''t5'', ''t6'', ''t7'', ''t8'', ''t9'', ''new title''] \<and>
      no_repeated_title (title_history task'))"
proof -
  have strip: "py_strip '' new title '' = ''new title''"
    by (simp add: py_strip_def py_isspace_def)
  have app: "rename_applies '' new title '' full_history_task"
    by (simp add: rename_applies_def strip full_history_task_def get_or_def)
  have th: "title_history full_history_task =
      map (\<lambda>s. JObj [(''title'', JStr s)])
                [''t0'', ''t1'', ''t2'', ''t3'', ''t4'', ''t5'', ''t6'', ''t7'', ''t8'', ''t9'']"
    by (simp add: title_history_def full_history_task_def)
  have nr: "no_repeated_title (title_history full_history_task)"
    by (simp add: th no_repeated_title_def)
  have ok: "title_history full_history_task = [] \<or>
            (\<exists>v. entry_title (last (title_history full_history_task)) = Inr v)"
    by (simp add: th)
  obtain task' where r: "rename_task '' new title '' full_history_task = Inr task'"
    using rename_task_history[OF app] ok by blast
  have d: "last_title_differs (title_history full_history_task)
             (get_or full_history_task ''task'' (JStr [])) = Inr False"
    by (simp add: th last_title_differs_def) (simp add: full_history_task_def get_or_def)
  have "rename_task '' new title '' full_history_task =
      Inr (setitem ''task'' (JStr ''new title'')
             (setitem ''titleHistory''
                (JList (map (\<lambda>s. JObj [(''title'', JStr s)])
                          [''t1'', ''t2'', ''t3'', ''t4'', ''t5'', ''t6'', ''t7'', ''t8'', ''t9''] @
                        [history_entry (JStr ''new title'')])) full_history_task))"
    unfolding rename_task_unfold[OF app] d strip
    by (simp add: th last_title_differs_def py_eq_JStr)
  then have h: "title_history task' =
      map (\<lambda>s. JObj [(''title'', JStr s)])
        [''t1'', ''t2'', ''t3'', ''t4'', ''t5'', ''t6'', ''t7'', ''t8'', ''t9''] @
        [history_entry (JStr ''new title'')]"
    using r by (simp add: title_history_setitem)
  have "no_repeated_title (title_history task')"
    using rename_task_history[OF app] r nr by blast
  then show ?thesis
    using app nr r h by (simp add: th entry_title_history_entry)
qed

lemma load_repeated_doc:
  "load_tasks demo_env (Some repeated_doc) =
     [[(''task'', JStr ''b''),
       (''titleHistory'',
        JList [JObj [(''title'', JStr ''a''), (''timestamp'', JStr ''2026-01-01T00:00:00'')],
               JObj [(''title'', JStr ''a''), (''timestamp'', JStr ''2026-01-01T00:00:00'')],
               JObj [(''title'', JStr ''b''), (''timestamp'', JStr ''2026-01-02T00:00:00'')]]),
       (''timer_running'', JBool False),
       (''completed'', JBool False), (''annotations'', JList []), (''alarms'', JList []),
       (''timer'', JInt 0), (''start_time_unix'', JNull), (''due_date'', JNull),
       (''icon'', JNull), (''localTime'', JStr ''2026-11-04 09:00:00 PST''),
       (''createdAt'', JStr ''2026-11-04T09:00:00''),
       (''subtasks'', JList []), (''subtasks_visible'', JBool True)]]"
  unfolding load_tasks_list repeated_doc_def
  apply (simp add: map_filter_def enumerate_eq_zip load_task_def)
  apply (simp add: fix_title_def has_key_def get_def get_or_def py_strip_def py_isspace_def)
  apply (simp add: task_defaults_def setdefaults_def setdefault_def has_key_def demo_env_def)
  apply (simp add: initialize_subtasks_leaf setitem_def)
  apply (simp add: coerce_fields_def coerce_def get_def get_or_def setitem_def)
  apply (simp add: valid_alarms_def get_def get_or_def setitem_def map_filter_def enumerate_eq_zip)
  apply (simp add: append_title_def get_def get_or_def setitem_def)
  apply (simp add: stamp_entries_def setitem_def setdefault_def has_key_def)
  apply (simp add: legacy_start_time_def has_key_def)
  done

text \<open>
  Claim C7 fails as stated: \<^verbatim>\<open>load_tasks\<close> keeps a history in which a title is repeated,
  and the rename only looks at the last entry, so the repetition is still there after a
  rename to a new title.
\<close>

theorem rename_task_history_counterexample:
  "rename_applies ''c'' (hd (load_tasks demo_env (Some repeated_doc))) \<and>
   (case rename_task ''c'' (hd (load_tasks demo_env (Some repeated_doc))) of
      Inr task' \<Rightarrow>
        map entry_title (title_history task') =
          [Inr (JStr ''a''), Inr (JStr ''a''), Inr (JStr ''b''), Inr (JStr ''c'')] \<and>
        title_history task' ! 0 = title_history task' ! 1 \<and>
        \<not> no_repeated_title (title_history task')
    | Inl e \<Rightarrow> False)"
proof -
  let ?t = "hd (load_tasks demo_env (Some repeated_doc))"
  have strip: "py_strip ''c'' = ''c''"
    by (simp add: py_strip_def py_isspace_def)
  have cur: "get_or ?t ''task'' (JStr []) = JStr ''b''"
    by (simp add: load_repeated_doc get_or_def)
  have app: "rename_applies ''c'' ?t"
    by (simp add: rename_applies_def strip cur)
  have th: "title_history ?t =
      [JObj [(''title'', JStr ''a''), (''timestamp'', JStr ''2026-01-01T00:00:00'')],
       JObj [(''title'', JStr ''a''), (''timestamp'', JStr ''2026-01-01T00:00:00'')],
       JObj [(''title'', JStr ''b''), (''timestamp'', JStr ''2026-01-02T00:00:00'')]]"
    by (simp add: title_history_def load_repeated_doc)
  have "rename_task ''c'' ?t =
      Inr (setitem ''task'' (JStr ''c'')
             (setitem ''titleHistory''
                (JList [JObj [(''title'', JStr ''a''), (''timestamp'', JStr ''2026-01-01T00:00:00'')],
                        JObj [(''title'', JStr ''a''), (''timestamp'', JStr ''2026-01-01T00:00:00'')],
                        JObj [(''title'', JStr ''b''), (''timestamp'', JStr ''2026-01-02T00:00:00'')],
                        history_entry (JStr ''c'')]) ?t))"
    unfolding rename_task_unfold[OF app] strip cur th
    by (simp add: last_title_differs_def py_eq_JStr)
  then show ?thesis
    using app
    by (simp add: title_history_setitem entry_title_history_entry no_repeated_title_def)
qed

end
